theory Spec2Isabelle
  imports Main "HOL-Library.Char_ord" "HOL-Library.List_Lexorder" "HOL-Library.Option_ord"
begin

section \<open>The song database of Moosync (class SongDBInstance, index.ts)\<close>

text \<open>
  The class talks to an SQLite database through a helper library. The tables are modelled
  as lists of rows in rowid order; a statement of the source becomes a function from the
  database state to the new state. Nullable columns are \<open>option\<close> values (\<open>None\<close>
  is NULL, and \<open>undefined\<close> on the JavaScript side).
\<close>

subsection \<open>Rows and the database state\<close>

text \<open>
  Song rows as the source reads them: the column \<open>_id\<close> (here \<open>song_id\<close>) and the two
  cover paths. The other columns of \<open>allsongs\<close> are never read by the modelled code.
\<close>

record marshaledSong =
  song_id :: string
  song_coverPath_low :: "string option"
  song_coverPath_high :: "string option"

text \<open>Interface \<open>Album\<close>; also the shape of a row of table \<open>albums\<close>.\<close>

record Album =
  album_id :: string
  album_name :: "string option"
  album_coverPath_high :: "string option"
  album_coverPath_low :: "string option"
  album_song_count :: "nat option"
  album_artist :: "string option"

text \<open>Interface \<open>artists\<close>; a row of table \<open>artists\<close>.\<close>

record artists =
  artist_id :: string
  artist_name :: "string option"
  artist_coverPath :: "string option"
  artist_song_count :: "nat option"

text \<open>Interface \<open>Genre\<close>; a row of table \<open>genre\<close>.\<close>

record Genre =
  genre_id :: string
  genre_name :: string
  genre_song_count :: "nat option"

text \<open>Interface \<open>Playlist\<close>; a row of table \<open>playlists\<close>.\<close>

record Playlist =
  playlist_id :: string
  playlist_name :: string
  playlist_desc :: "string option"
  playlist_coverPath :: "string option"
  playlist_song_count :: "nat option"

text \<open>
  A row of one of the four bridge tables: column \<open>song\<close> and the column naming the other
  side (\<open>artist\<close>, \<open>album\<close>, \<open>genre\<close> or \<open>playlist\<close>, here \<open>entity\<close>). The key
  column \<open>id\<close> of a bridge row is never NULL, so \<open>count(id)\<close> counts rows.
\<close>

record bridge_row =
  song :: string
  entity :: string

text \<open>
  The database, together with the generator behind \<open>v4()\<close> of package uuid: the stream
  of identifiers it is going to return and the position in that stream. The schema is not
  among the sources; what an \<open>INSERT\<close> into \<open>albums\<close> puts into column
  \<open>album_song_count\<close> when it names no value for it is the default the schema declares
  for the column, kept here as \<open>album_song_count_default\<close>.
\<close>

record db =
  allsongs :: "marshaledSong list"
  albums :: "Album list"
  artists :: "artists list"
  genre :: "Genre list"
  playlists :: "Playlist list"
  artists_bridge :: "bridge_row list"
  album_bridge :: "bridge_row list"
  genre_bridge :: "bridge_row list"
  playlist_bridge :: "bridge_row list"
  uuids :: "nat \<Rightarrow> string"
  uuid_next :: nat
  album_song_count_default :: "nat option"

definition v4 :: "db \<Rightarrow> string \<times> db" where
  "v4 d = (uuids d (uuid_next d), d\<lparr>uuid_next := Suc (uuid_next d)\<rparr>)"

subsection \<open>JavaScript and SQL primitives\<close>

text \<open>Truthiness of a possibly absent string: \<open>undefined\<close>, \<open>null\<close> and \<open>''\<close> are falsy.\<close>

definition truthy :: "string option \<Rightarrow> bool" where
  "truthy v = (case v of None \<Rightarrow> False | Some s \<Rightarrow> s \<noteq> [])"

text \<open>\<open>queryFirstCell\<close>: the first cell of the first row, \<open>undefined\<close> without a row.\<close>

definition queryFirstCell :: "'a list \<Rightarrow> 'a option" where
  "queryFirstCell cells = (case cells of [] \<Rightarrow> None | c # _ \<Rightarrow> Some c)"

text \<open>
  A string is the sequence of the bytes of its UTF-8 encoding, which is what SQLite keeps
  and compares; a JavaScript string reaches the database in this form. \<open>utf8_chars\<close>
  cuts a string into its characters as SQLite reads them (\<open>sqlite3Utf8Read\<close>): a byte
  from \<open>0xC0\<close> on begins a character that takes the continuation bytes after it, any
  other byte is a character of its own.
\<close>

definition is_cont :: "char \<Rightarrow> bool" where
  "is_cont c = (CHR 0x80 \<le> c \<and> c < CHR 0xC0)"

function utf8_chars :: "string \<Rightarrow> string list" where
  "utf8_chars [] = []"
| "utf8_chars (c # t) =
     (if CHR 0xC0 \<le> c then (c # takeWhile is_cont t) # utf8_chars (dropWhile is_cont t)
      else [c] # utf8_chars t)"
  by pat_completeness auto
termination
  by (relation "measure length") (auto simp: le_imp_less_Suc length_dropWhile_le)

text \<open>
  \<open>String.prototype.trim\<close> removes the white space and the line terminators of
  ECMAScript from both ends: U+0009 to U+000D, U+0020, U+00A0, U+1680, U+2000 to U+200A,
  U+2028, U+2029, U+202F, U+205F, U+3000 and U+FEFF, here in UTF-8.
\<close>

definition white_space :: "string list" where
  "white_space =
     [[CHR 0x09], [CHR 0x0A], [CHR 0x0B], [CHR 0x0C], [CHR 0x0D], [CHR 0x20],
      [CHR 0xC2, CHR 0xA0], [CHR 0xE1, CHR 0x9A, CHR 0x80],
      [CHR 0xE2, CHR 0x80, CHR 0x80], [CHR 0xE2, CHR 0x80, CHR 0x81],
      [CHR 0xE2, CHR 0x80, CHR 0x82], [CHR 0xE2, CHR 0x80, CHR 0x83],
      [CHR 0xE2, CHR 0x80, CHR 0x84], [CHR 0xE2, CHR 0x80, CHR 0x85],
      [CHR 0xE2, CHR 0x80, CHR 0x86], [CHR 0xE2, CHR 0x80, CHR 0x87],
      [CHR 0xE2, CHR 0x80, CHR 0x88], [CHR 0xE2, CHR 0x80, CHR 0x89],
      [CHR 0xE2, CHR 0x80, CHR 0x8A], [CHR 0xE2, CHR 0x80, CHR 0xA8],
      [CHR 0xE2, CHR 0x80, CHR 0xA9], [CHR 0xE2, CHR 0x80, CHR 0xAF],
      [CHR 0xE2, CHR 0x81, CHR 0x9F], [CHR 0xE3, CHR 0x80, CHR 0x80],
      [CHR 0xEF, CHR 0xBB, CHR 0xBF]]"

definition is_ws :: "string \<Rightarrow> bool" where
  "is_ws c = (c \<in> set white_space)"

definition trim :: "string \<Rightarrow> string" where
  "trim s = concat (rev (dropWhile is_ws (rev (dropWhile is_ws (utf8_chars s)))))"

text \<open>
  SQLite's \<open>NOCASE\<close> collation folds the 26 upper case letters of ASCII and compares
  the rest byte by byte.
\<close>

definition nocase :: "char \<Rightarrow> char" where
  "nocase c =
     (case map_of (zip ''ABCDEFGHIJKLMNOPQRSTUVWXYZ'' ''abcdefghijklmnopqrstuvwxyz'') c of
        None \<Rightarrow> c | Some l \<Rightarrow> l)"

definition nocase_eq :: "string \<Rightarrow> string \<Rightarrow> bool" where
  "nocase_eq a b = (map nocase a = map nocase b)"

text \<open>\<open><column> = ? COLLATE NOCASE\<close> on a nullable column: NULL equals nothing.\<close>

definition nocase_eq_col :: "string option \<Rightarrow> string \<Rightarrow> bool" where
  "nocase_eq_col col v = (case col of None \<Rightarrow> False | Some c \<Rightarrow> nocase_eq c v)"

text \<open>
  The operator \<open>LIKE\<close> of SQLite works on characters: in the pattern \<open>%\<close> stands for
  any run of characters and \<open>_\<close> for any one character, and any other character stands
  for itself, the letters of ASCII without regard to case. \<open>like_chars\<close> matches a
  pattern and a string that are cut into characters; \<open>like pattern s\<close> is
  \<open>s LIKE pattern\<close>.
\<close>

fun like_chars :: "string list \<Rightarrow> string list \<Rightarrow> bool" where
  "like_chars [] s = (s = [])"
| "like_chars (p # ps) s =
     (if p = ''%'' then
        (like_chars ps s \<or> (case s of [] \<Rightarrow> False | _ # t \<Rightarrow> like_chars (p # ps) t))
      else
        (case s of [] \<Rightarrow> False
         | c # t \<Rightarrow> (p = ''_'' \<or> map nocase p = map nocase c) \<and> like_chars ps t))"

definition like :: "string \<Rightarrow> string \<Rightarrow> bool" where
  "like pattern s = like_chars (utf8_chars pattern) (utf8_chars s)"

text \<open>The characters of an identifier that \<open>v4()\<close> returns: hexadecimal digits and hyphens.\<close>

definition uuid_chars :: "string \<Rightarrow> bool" where
  "uuid_chars s = list_all (\<lambda>c. c \<in> set ''0123456789abcdef-'') s"

text \<open>The key of index \<open>i\<close> of an array, as \<open>for (const s in songs)\<close> yields it.\<close>

definition digit_char :: "nat \<Rightarrow> char" where
  "digit_char n = ''0123456789'' ! (n mod 10)"

function string_of_nat :: "nat \<Rightarrow> string" where
  "string_of_nat n =
     (if n < 10 then [digit_char n] else string_of_nat (n div 10) @ [digit_char (n mod 10)])"
  by pat_completeness auto
termination
  by (relation "measure id") auto

declare string_of_nat.simps [simp del]

definition array_keys :: "'a list \<Rightarrow> string list" where
  "array_keys xs = map string_of_nat [0..<length xs]"

subsection \<open>Playlists\<close>

text \<open>\<open>SELECT count(id) FROM <bridge> WHERE <column> = ?\<close>\<close>

definition count_bridge :: "bridge_row list \<Rightarrow> string \<Rightarrow> nat" where
  "count_bridge rows e = length (filter (\<lambda>b. entity b = e) rows)"

definition set_playlist_count :: "string \<Rightarrow> db \<Rightarrow> db" where
  "set_playlist_count pid d =
     d\<lparr>playlists := map (\<lambda>r. if playlist_id r = pid
                              then r\<lparr>playlist_song_count := Some (count_bridge (playlist_bridge d) pid)\<rparr>
                              else r) (playlists d)\<rparr>"

definition updateSongCountPlaylists :: "db \<Rightarrow> db" where
  "updateSongCountPlaylists d = fold set_playlist_count (map playlist_id (playlists d)) d"

text \<open>\<open>this.db.delete('playlist_bridge', { playlist: playlist, song: s })\<close>\<close>

definition delete_playlist_bridge :: "string \<Rightarrow> string \<Rightarrow> db \<Rightarrow> db" where
  "delete_playlist_bridge p s d =
     d\<lparr>playlist_bridge := filter (\<lambda>b. \<not> (entity b = p \<and> song b = s)) (playlist_bridge d)\<rparr>"

text \<open>The loop is \<open>for (const s in songs)\<close>: \<open>s\<close> runs over the keys of the array.\<close>

definition removeFromPlaylist :: "string \<Rightarrow> string list \<Rightarrow> db \<Rightarrow> db" where
  "removeFromPlaylist playlist songs d =
     updateSongCountPlaylists (fold (delete_playlist_bridge playlist) (array_keys songs) d)"

subsection \<open>Albums: song counts\<close>

definition set_album_count :: "string \<Rightarrow> db \<Rightarrow> db" where
  "set_album_count aid d =
     d\<lparr>albums := map (\<lambda>r. if album_id r = aid
                           then r\<lparr>album_song_count := Some (count_bridge (album_bridge d) aid)\<rparr>
                           else r) (albums d)\<rparr>"

definition updateSongCountAlbum :: "db \<Rightarrow> db" where
  "updateSongCountAlbum d = fold set_album_count (map album_id (albums d)) d"

subsection \<open>Storing a song\<close>

text \<open>
  The argument \<open>newDoc\<close> of \<open>store\<close>: its identifier and cover paths, and the three
  fields \<open>artists\<close>, \<open>album\<close> and \<open>genre\<close> that \<open>store\<close> reads itself. In this version
  of the class \<open>artists\<close> is a list of names.
\<close>

record Song =
  doc_id :: string
  doc_coverPath_low :: "string option"
  doc_coverPath_high :: "string option"
  doc_artists :: "string list option"
  doc_album :: "Album option"
  doc_genre :: "string list option"

text \<open>\<open>SELECT artist_id FROM artists WHERE artist_name = ? COLLATE NOCASE\<close>\<close>

definition find_artist :: "string \<Rightarrow> db \<Rightarrow> string option" where
  "find_artist name d =
     queryFirstCell (map artist_id (filter (\<lambda>r. nocase_eq_col (artist_name r) name) (artists d)))"

definition storeArtists_step :: "string \<Rightarrow> string list \<times> db \<Rightarrow> string list \<times> db" where
  "storeArtists_step a acc =
     (case acc of (artistID, d) \<Rightarrow>
        (let found = find_artist (trim a) d in
         if truthy found then (artistID @ [the found], d)
         else (case v4 d of (new_id, d') \<Rightarrow>
                 (artistID @ [new_id],
                  d'\<lparr>artists := artists d' @
                       [\<lparr>artist_id = new_id, artist_name = Some (trim a),
                         artist_coverPath = None, artist_song_count = None\<rparr>]\<rparr>))))"

definition storeArtists :: "string list \<Rightarrow> db \<Rightarrow> string list \<times> db" where
  "storeArtists names d = fold storeArtists_step names ([], d)"

text \<open>\<open>SELECT album_id FROM albums WHERE album_name = ? COLLATE NOCASE\<close>\<close>

definition find_album :: "string \<Rightarrow> db \<Rightarrow> string option" where
  "find_album name d =
     queryFirstCell (map album_id (filter (\<lambda>r. nocase_eq_col (album_name r) name) (albums d)))"

text \<open>
  Modelled from the spec: the declaration of table \<open>albums\<close> (the schema is not among the
  sources). The spec gives every album a unique identifier, and has the names kept unique
  by the lookup before the insert, not by the table; so the conflict that
  \<open>INSERT OR REPLACE\<close> resolves is the one on \<open>album_id\<close>: the rows with that
  identifier go, and the new row is added. The statement names five columns; the sixth,
  \<open>album_song_count\<close>, has the default of the column in the new row.
\<close>

definition insert_or_replace_album :: "Album \<Rightarrow> db \<Rightarrow> db" where
  "insert_or_replace_album row d =
     d\<lparr>albums := filter (\<lambda>r. album_id r \<noteq> album_id row) (albums d) @ [row]\<rparr>"

text \<open>The result is \<open>undefined\<close> for an album without a name.\<close>

definition storeAlbum :: "Album \<Rightarrow> db \<Rightarrow> string option \<times> db" where
  "storeAlbum album d =
     (if truthy (album_name album) then
        (let found = find_album (trim (the (album_name album))) d in
         case (if \<not> truthy found then v4 d else (the found, d)) of (new_id, d') \<Rightarrow>
           (Some new_id,
            insert_or_replace_album
              \<lparr>album_id = new_id, album_name = album_name album,
               album_coverPath_high = album_coverPath_high album,
               album_coverPath_low = album_coverPath_low album,
               album_song_count = album_song_count_default d',
               album_artist = album_artist album\<rparr> d'))
      else (None, d))"

text \<open>\<open>SELECT genre_id FROM genre WHERE genre_name = ? COLLATE NOCASE\<close>\<close>

definition find_genre :: "string \<Rightarrow> db \<Rightarrow> string option" where
  "find_genre name d =
     queryFirstCell (map genre_id (filter (\<lambda>r. nocase_eq (genre_name r) name) (genre d)))"

definition storeGenre_step :: "string \<Rightarrow> string list \<times> db \<Rightarrow> string list \<times> db" where
  "storeGenre_step a acc =
     (case acc of (genreID, d) \<Rightarrow>
        (let found = find_genre a d in
         if truthy found then (genreID @ [the found], d)
         else (case v4 d of (new_id, d') \<Rightarrow>
                 (genreID @ [new_id],
                  d'\<lparr>genre := genre d' @
                       [\<lparr>genre_id = new_id, genre_name = a, genre_song_count = None\<rparr>]\<rparr>))))"

definition storeGenre :: "string list option \<Rightarrow> db \<Rightarrow> string list \<times> db" where
  "storeGenre g d = (case g of None \<Rightarrow> ([], d) | Some names \<Rightarrow> fold storeGenre_step names ([], d))"

definition storeArtistBridge :: "string list \<Rightarrow> string \<Rightarrow> db \<Rightarrow> db" where
  "storeArtistBridge artistID songID d =
     d\<lparr>artists_bridge := artists_bridge d @ map (\<lambda>i. \<lparr>song = songID, entity = i\<rparr>) artistID\<rparr>"

definition storeGenreBridge :: "string list \<Rightarrow> string \<Rightarrow> db \<Rightarrow> db" where
  "storeGenreBridge genreID songID d =
     d\<lparr>genre_bridge := genre_bridge d @ map (\<lambda>i. \<lparr>song = songID, entity = i\<rparr>) genreID\<rparr>"

definition storeAlbumBridge :: "string option \<Rightarrow> string \<Rightarrow> db \<Rightarrow> db" where
  "storeAlbumBridge albumID songID d =
     (if truthy albumID
      then d\<lparr>album_bridge := album_bridge d @ [\<lparr>song = songID, entity = the albumID\<rparr>]\<rparr>
      else d)"

text \<open>
  \<open>store\<close>. The method \<open>marshalSong\<close> belongs to the base class \<open>DBUtils\<close>, which is
  not among the sources; it is the parameter \<open>marshalSong\<close> here. Without an album the
  album identifier is \<open>''\<close>, which is as falsy as \<open>undefined\<close>.
\<close>

definition store :: "(Song \<Rightarrow> marshaledSong) \<Rightarrow> Song \<Rightarrow> db \<Rightarrow> db" where
  "store marshalSong newDoc d =
     (case (case doc_artists newDoc of None \<Rightarrow> ([], d) | Some names \<Rightarrow> storeArtists names d) of
        (artistID, d1) \<Rightarrow>
     (case (case doc_album newDoc of None \<Rightarrow> (Some [], d1) | Some album \<Rightarrow> storeAlbum album d1) of
        (albumID, d2) \<Rightarrow>
     (case storeGenre (doc_genre newDoc) d2 of
        (genreID, d3) \<Rightarrow>
     (let marshaledSong = marshalSong newDoc in
      if filter (\<lambda>r. song_id r = song_id marshaledSong) (allsongs d3) = [] then
        storeAlbumBridge albumID (song_id marshaledSong)
          (storeGenreBridge genreID (song_id marshaledSong)
            (storeArtistBridge artistID (song_id marshaledSong)
              (d3\<lparr>allsongs := allsongs d3 @ [marshaledSong]\<rparr>)))
      else d3))))"

subsection \<open>Removing a song\<close>

text \<open>
  \<open>getCountBySong\<close>: for every bridge row of the song, the number of bridge rows of the
  entity of that row, paired with the entity. The source passes the names of the table and
  of the column; here the caller passes the rows of the table.
\<close>

definition getCountBySong :: "bridge_row list \<Rightarrow> string \<Rightarrow> (nat \<times> string) list" where
  "getCountBySong bridge s =
     map (\<lambda>i. (count_bridge bridge (entity i), entity i)) (filter (\<lambda>b. song b = s) bridge)"

text \<open>
  What \<open>getEntityByOptions({ album: { album_id: id } })\<close> returns: the rows of
  \<open>SELECT * FROM albums WHERE album_id LIKE ? ORDER BY albums.album_name ASC\<close>, and the
  same for the artists (\<open>getEntityByOptions_query\<close> below builds the statement and
  its argument). NULL sorts first; rows with equal names keep their table order.
\<close>

definition albums_by_id :: "string \<Rightarrow> db \<Rightarrow> Album list" where
  "albums_by_id pat d = sort_key album_name (filter (\<lambda>r. like pat (album_id r)) (albums d))"

definition artists_by_id :: "string \<Rightarrow> db \<Rightarrow> artists list" where
  "artists_by_id pat d = sort_key artist_name (filter (\<lambda>r. like pat (artist_id r)) (artists d))"

text \<open>\<open>if (p) pathsToRemove.push(p)\<close>\<close>

definition push_path :: "string option \<Rightarrow> string list \<Rightarrow> string list" where
  "push_path p paths = (if truthy p then paths @ [the p] else paths)"

text \<open>The first cell of the first row, for a nullable column.\<close>

definition queryFirstCell_null :: "string option list \<Rightarrow> string option" where
  "queryFirstCell_null cells = (case queryFirstCell cells of None \<Rightarrow> None | Some c \<Rightarrow> c)"

definition remove_album_step :: "nat \<times> string \<Rightarrow> string list \<times> db \<Rightarrow> string list \<times> db" where
  "remove_album_step i acc =
     (case acc of (paths, d) \<Rightarrow>
        if fst i = 1 then
          (let album = queryFirstCell (albums_by_id (snd i) d);
               d' = d\<lparr>albums := filter (\<lambda>r. album_id r \<noteq> snd i) (albums d)\<rparr>
           in (push_path (Option.bind album album_coverPath_high)
                 (push_path (Option.bind album album_coverPath_low) paths), d'))
        else (paths, d))"

definition remove_artist_step :: "nat \<times> string \<Rightarrow> string list \<times> db \<Rightarrow> string list \<times> db" where
  "remove_artist_step i acc =
     (case acc of (paths, d) \<Rightarrow>
        if fst i = 1 then
          (let artist = queryFirstCell (artists_by_id (snd i) d);
               d' = d\<lparr>artists := filter (\<lambda>r. artist_id r \<noteq> snd i) (artists d)\<rparr>
           in (push_path (Option.bind artist artist_coverPath) paths, d'))
        else (paths, d))"

text \<open>The five \<open>this.db.delete\<close> calls of the transaction.\<close>

definition delete_song_rows :: "string \<Rightarrow> db \<Rightarrow> db" where
  "delete_song_rows song_id' d =
     d\<lparr>artists_bridge := filter (\<lambda>b. song b \<noteq> song_id') (artists_bridge d),
       album_bridge := filter (\<lambda>b. song b \<noteq> song_id') (album_bridge d),
       genre_bridge := filter (\<lambda>b. song b \<noteq> song_id') (genre_bridge d),
       playlist_bridge := filter (\<lambda>b. song b \<noteq> song_id') (playlist_bridge d),
       allsongs := filter (\<lambda>r. song_id r \<noteq> song_id') (allsongs d)\<rparr>"

text \<open>The transaction of \<open>removeSong\<close>: the paths collected and the new database.\<close>

definition removeSong_transaction :: "string \<Rightarrow> db \<Rightarrow> string list \<times> db" where
  "removeSong_transaction song_id' d =
     (let album_ids = getCountBySong (album_bridge d) song_id';
          artist_ids = getCountBySong (artists_bridge d) song_id';
          songCoverPath_low =
            queryFirstCell_null (map song_coverPath_low (filter (\<lambda>r. song_id r = song_id') (allsongs d)));
          songCoverPath_high =
            queryFirstCell_null (map song_coverPath_high (filter (\<lambda>r. song_id r = song_id') (allsongs d)));
          pathsToRemove = push_path songCoverPath_high (push_path songCoverPath_low [])
      in fold remove_artist_step artist_ids
           (fold remove_album_step album_ids (pathsToRemove, delete_song_rows song_id' d)))"

text \<open>
  The file system is outside the program. \<open>unlink p\<close> is the error the operating
  system answers to the removal of path \<open>p\<close> (\<open>None\<close> when it removes the file).
  \<open>fsP.rm(path, { force: true })\<close> ignores the error of a path that does not exist, and
  no other; a rejected \<open>await\<close> leaves the loop and rejects \<open>removeSong\<close>.
\<close>

datatype fs_error = ENOENT | EACCES | EPERM | EBUSY | EISDIR | EIO

definition rm_force :: "(string \<Rightarrow> fs_error option) \<Rightarrow> string \<Rightarrow> fs_error option" where
  "rm_force unlink p = (case unlink p of Some ENOENT \<Rightarrow> None | r \<Rightarrow> r)"

fun rm_paths :: "(string \<Rightarrow> fs_error option) \<Rightarrow> string list \<Rightarrow> fs_error + unit" where
  "rm_paths unlink [] = Inr ()"
| "rm_paths unlink (p # ps) =
     (case rm_force unlink p of Some e \<Rightarrow> Inl e | None \<Rightarrow> rm_paths unlink ps)"

text \<open>\<open>removeSong\<close>: how the promise settles, and the database after the transaction.\<close>

definition removeSong :: "(string \<Rightarrow> fs_error option) \<Rightarrow> string \<Rightarrow> db \<Rightarrow> (fs_error + unit) \<times> db" where
  "removeSong unlink song_id' d =
     (case removeSong_transaction song_id' d of
        (pathsToRemove, d') \<Rightarrow> (rm_paths unlink pathsToRemove, d'))"

subsection \<open>Building the queries\<close>

text \<open>
  An options object (\<open>SongAPIOptions\<close>, \<open>EntityApiOptions\<close>) is the list of its
  entries, in the order \<open>Object.entries\<close> gives them. A value is a boolean (as
  \<open>inclusive\<close> is), a sort specification (\<open>sortBy\<close>) or an object of column
  predicates, itself a list of entries whose values are strings.
\<close>

record sortOptions =
  sort_type :: string
  asc :: bool

datatype option_value = Flag bool | SortBy sortOptions | Fields "(string \<times> string) list"

type_synonym api_options = "(string \<times> option_value) list"

text \<open>\<open>Object.entries\<close> of a value.\<close>

definition entries_of :: "option_value \<Rightarrow> (string \<times> string) list" where
  "entries_of v =
     (case v of
        Flag _ \<Rightarrow> []
      | SortBy so \<Rightarrow> [(''type'', sort_type so), (''asc'', if asc so then ''true'' else ''false'')]
      | Fields fs \<Rightarrow> fs)"

text \<open>\<open>options.inclusive\<close> as a condition, and \<open>options?.sortBy\<close>.\<close>

definition inclusive_of :: "api_options \<Rightarrow> bool" where
  "inclusive_of options =
     (case map_of options ''inclusive'' of None \<Rightarrow> False | Some (Flag b) \<Rightarrow> b | Some _ \<Rightarrow> True)"

definition sortBy_of :: "api_options option \<Rightarrow> sortOptions option" where
  "sortBy_of options =
     (case options of None \<Rightarrow> None
      | Some opts \<Rightarrow> (case map_of opts ''sortBy'' of Some (SortBy so) \<Rightarrow> Some so | _ \<Rightarrow> None))"

text \<open>A template literal prints \<open>undefined\<close> for a value that is not there.\<close>

definition js_string :: "string option \<Rightarrow> string" where
  "js_string v = (case v of None \<Rightarrow> ''undefined'' | Some s \<Rightarrow> s)"

definition getTableByProperty :: "string \<Rightarrow> string option" where
  "getTableByProperty key =
     (if key = ''song'' then Some ''allsongs''
      else if key = ''album'' then Some ''albums''
      else if key = ''artist'' then Some ''artists''
      else if key = ''genre'' then Some ''genre''
      else if key = ''playlist'' then Some ''playlists''
      else None)"

definition getTitleColByProperty :: "string \<Rightarrow> string option" where
  "getTitleColByProperty key =
     (if key = ''song'' then Some ''title''
      else if key = ''album'' then Some ''album_name''
      else if key = ''artist'' then Some ''artist_name''
      else if key = ''genre'' then Some ''genre_name''
      else if key = ''playlist'' then Some ''playlist_name''
      else None)"

text \<open>The closure \<open>addANDorOR\<close>; its caller sets \<open>isFirst\<close> to false.\<close>

definition addANDorOR :: "bool \<Rightarrow> bool \<Rightarrow> string" where
  "addANDorOR inclusive isFirst = (if \<not> isFirst then (if inclusive then ''AND'' else ''OR'') else [])"

text \<open>One round of the inner loop of \<open>populateWhereQuery\<close>, on \<open>(where, args, isFirst)\<close>.\<close>

definition where_predicate ::
  "bool \<Rightarrow> string option \<Rightarrow> string \<times> string \<Rightarrow> string \<times> string list \<times> bool
     \<Rightarrow> string \<times> string list \<times> bool" where
  "where_predicate inclusive tableName kv st =
     (case st of (whr, args, isFirst) \<Rightarrow>
        (whr @ addANDorOR inclusive isFirst @ '' '' @ js_string tableName @ ''.'' @ fst kv @ '' LIKE ?'',
         args @ [''%'' @ snd kv @ ''%''],
         False))"

definition where_entry ::
  "bool \<Rightarrow> string \<times> option_value \<Rightarrow> string \<times> string list \<times> bool
     \<Rightarrow> string \<times> string list \<times> bool" where
  "where_entry inclusive kv st =
     (if fst kv \<noteq> ''inclusive'' \<and> fst kv \<noteq> ''sortBy''
      then fold (where_predicate inclusive (getTableByProperty (fst kv))) (entries_of (snd kv)) st
      else st)"

definition populateWhereQuery :: "api_options option \<Rightarrow> string \<times> string list" where
  "populateWhereQuery options =
     (case options of
        None \<Rightarrow> ([], [])
      | Some opts \<Rightarrow>
          (case fold (where_entry (inclusive_of opts)) opts (''WHERE '', [], True) of
             (whr, args, _) \<Rightarrow> if args = [] then ([], []) else (whr, args)))"

definition addOrderClause :: "sortOptions option \<Rightarrow> string" where
  "addOrderClause sortBy =
     (case sortBy of
        None \<Rightarrow> []
      | Some so \<Rightarrow>
          ''ORDER BY '' @ (if sort_type so = ''name'' then ''title'' else ''date_added'') @ '' '' @
          (if asc so then ''ASC'' else ''DESC''))"

text \<open>
  The three clauses that \<open>getSongByOptions\<close> takes from the base class \<open>DBUtils\<close>,
  which is not among the sources: they are parameters.
\<close>

record DBUtils =
  addGroupConcatClause :: string
  addLeftJoinClause :: string
  addExcludeWhereClause :: "bool \<Rightarrow> string list option \<Rightarrow> string"

text \<open>The statement of \<open>getSongByOptions\<close> and its arguments.\<close>

definition getSongByOptions_query ::
  "DBUtils \<Rightarrow> api_options option \<Rightarrow> string list option \<Rightarrow> string \<times> string list" where
  "getSongByOptions_query utils options exclude =
     (case populateWhereQuery options of
        (whr, args) \<Rightarrow>
          (''SELECT *, '' @ addGroupConcatClause utils @ '' FROM allsongs'' @ [CHR 0x0A] @
           ''      '' @ addLeftJoinClause utils @ [CHR 0x0A] @
           ''        '' @ whr @ [CHR 0x0A] @
           ''        '' @ addExcludeWhereClause utils (args = []) exclude @
           '' GROUP BY allsongs._id '' @ addOrderClause (sortBy_of options),
           args))"

text \<open>One round of the inner loop of \<open>getEntityByOptions\<close>.\<close>

definition entity_predicate ::
  "bool \<Rightarrow> string \<times> string \<Rightarrow> string \<times> string list \<times> bool \<Rightarrow> string \<times> string list \<times> bool" where
  "entity_predicate inclusive kv st =
     (case st of (whr, args, isFirst) \<Rightarrow>
        (whr @ addANDorOR inclusive isFirst @ '' '' @ fst kv @ '' LIKE ?'', args @ [snd kv], False))"

text \<open>
  The outer loop of \<open>getEntityByOptions\<close> on \<open>(query, orderBy, where, args)\<close>. The
  loop ends at the first entry of a table whose value is \<open>true\<close> or an object, so the
  inner loop runs once at most, and starts with \<open>isFirst\<close> true.
\<close>

fun entity_entries ::
  "bool \<Rightarrow> api_options \<Rightarrow> string \<times> string option \<times> string \<times> string list
     \<Rightarrow> string \<times> string option \<times> string \<times> string list" where
  "entity_entries inclusive [] st = st"
| "entity_entries inclusive ((key, v) # rest) (query, orderBy, whr, args) =
     (case getTableByProperty key of
        None \<Rightarrow> entity_entries inclusive rest (query, orderBy, whr, args)
      | Some tableName \<Rightarrow>
          (let query' = query @ tableName @ '' '';
               orderBy' = Some (tableName @ ''.'' @ js_string (getTitleColByProperty key))
           in case v of
                Flag b \<Rightarrow>
                  if b then (query', orderBy', whr, args)
                  else entity_entries inclusive rest (query', orderBy', whr, args)
              | _ \<Rightarrow>
                  (case fold (entity_predicate inclusive) (entries_of v) (whr, args, True) of
                     (whr', args', _) \<Rightarrow> (query', orderBy', whr', args'))))"

text \<open>The statement of \<open>getEntityByOptions\<close> and its arguments.\<close>

definition getEntityByOptions_query :: "api_options \<Rightarrow> string \<times> string list" where
  "getEntityByOptions_query options =
     (case entity_entries (inclusive_of options) options (''SELECT * FROM '', None, ''WHERE '', []) of
        (query, orderBy, whr, args) \<Rightarrow>
          (query @ '' '' @ (if args \<noteq> [] then whr else []) @
           '' ORDER BY '' @ js_string orderBy @ '' ASC'', args))"

text \<open>The four queries of \<open>searchAll\<close>: songs, albums, artists, genres.\<close>

definition searchAll_queries ::
  "DBUtils \<Rightarrow> string \<Rightarrow> string list option \<Rightarrow> (string \<times> string list) list" where
  "searchAll_queries utils term' exclude =
     [getSongByOptions_query utils (Some [(''song'', Fields [(''path'', term')])]) exclude,
      getEntityByOptions_query [(''album'', Fields [(''album_name'', term')])],
      getEntityByOptions_query [(''artist'', Fields [(''artist_name'', term')])],
      getEntityByOptions_query [(''genre'', Fields [(''genre_name'', term')])]]"

text \<open>
  The values a caller gives in a song query, in the order of the entries: those of every
  entry but \<open>inclusive\<close> and \<open>sortBy\<close>.
\<close>

definition predicate_values :: "api_options \<Rightarrow> string list" where
  "predicate_values options =
     concat (map (\<lambda>kv. map snd (entries_of (snd kv)))
       (filter (\<lambda>kv. fst kv \<noteq> ''inclusive'' \<and> fst kv \<noteq> ''sortBy'') options))"

section \<open>Example states\<close>

definition uuid_stream :: "nat \<Rightarrow> string" where
  "uuid_stream n = ''uuid-'' @ string_of_nat n"

definition empty_db :: db where
  "empty_db =
     \<lparr>allsongs = [], albums = [], artists = [], genre = [], playlists = [],
      artists_bridge = [], album_bridge = [], genre_bridge = [], playlist_bridge = [],
      uuids = uuid_stream, uuid_next = 0, album_song_count_default = None\<rparr>"

text \<open>A playlist holding the song \<open>songA\<close> and a song whose identifier is \<open>0\<close>.\<close>

definition playlist_db :: db where
  "playlist_db =
     empty_db\<lparr>playlists :=
                [\<lparr>playlist_id = ''p1'', playlist_name = ''Mix'', playlist_desc = None,
                  playlist_coverPath = None, playlist_song_count = Some 2\<rparr>],
              playlist_bridge :=
                [\<lparr>song = ''songA'', entity = ''p1''\<rparr>, \<lparr>song = ''0'', entity = ''p1''\<rparr>]\<rparr>"

text \<open>Two albums; two songs are on the first, none on the second.\<close>

definition album_db :: db where
  "album_db =
     empty_db\<lparr>albums :=
                [\<lparr>album_id = ''a1'', album_name = Some ''Discovery'', album_coverPath_high = None,
                  album_coverPath_low = None, album_song_count = None, album_artist = None\<rparr>,
                 \<lparr>album_id = ''a2'', album_name = Some ''Homework'', album_coverPath_high = None,
                  album_coverPath_low = None, album_song_count = Some 7, album_artist = None\<rparr>],
              album_bridge :=
                [\<lparr>song = ''s1'', entity = ''a1''\<rparr>, \<lparr>song = ''s2'', entity = ''a1''\<rparr>]\<rparr>"

text \<open>
  Two songs of one artist; the first song is also on an album and in a playlist.
\<close>

definition shared_db :: db where
  "shared_db =
     empty_db\<lparr>allsongs :=
                [\<lparr>song_id = ''s1'', song_coverPath_low = Some ''/covers/s1_low.jpg'',
                  song_coverPath_high = None\<rparr>,
                 \<lparr>song_id = ''s2'', song_coverPath_low = None, song_coverPath_high = None\<rparr>],
              albums :=
                [\<lparr>album_id = ''al1'', album_name = Some ''Discovery'',
                  album_coverPath_high = Some ''/covers/al1_high.jpg'',
                  album_coverPath_low = None, album_song_count = None, album_artist = None\<rparr>],
              artists :=
                [\<lparr>artist_id = ''ar1'', artist_name = Some ''Daft Punk'',
                  artist_coverPath = Some ''/covers/ar1.jpg'', artist_song_count = None\<rparr>],
              artists_bridge :=
                [\<lparr>song = ''s1'', entity = ''ar1''\<rparr>, \<lparr>song = ''s2'', entity = ''ar1''\<rparr>],
              album_bridge := [\<lparr>song = ''s1'', entity = ''al1''\<rparr>],
              playlist_bridge := [\<lparr>song = ''s1'', entity = ''p1''\<rparr>]\<rparr>"

definition no_fs_error :: "string \<Rightarrow> fs_error option" where
  "no_fs_error p = None"

definition utils_ex :: DBUtils where
  "utils_ex =
     \<lparr>addGroupConcatClause = ''group_concat(artist_name) as artists'',
      addLeftJoinClause = ''LEFT JOIN artists_bridge ON allsongs._id = artists_bridge.song'',
      addExcludeWhereClause = (\<lambda>isFirst exclude. [])\<rparr>"

text \<open>Two file systems: one refuses to remove a cover, one has lost it.\<close>

definition denied :: "string \<Rightarrow> fs_error option" where
  "denied p = (if p = ''/covers/s1_low.jpg'' then Some EACCES else None)"

definition missing :: "string \<Rightarrow> fs_error option" where
  "missing p = (if p = ''/covers/s1_low.jpg'' then Some ENOENT else None)"

text \<open>An instance of \<open>marshalSong\<close>, and songs to store.\<close>

definition marshal_ex :: "Song \<Rightarrow> marshaledSong" where
  "marshal_ex s =
     \<lparr>song_id = doc_id s, song_coverPath_low = doc_coverPath_low s,
      song_coverPath_high = doc_coverPath_high s\<rparr>"

text \<open>An album whose name has a space on either side, and a song of that album.\<close>

definition padded_album :: Album where
  "padded_album =
     \<lparr>album_id = [], album_name = Some '' Discovery '',
      album_coverPath_high = None, album_coverPath_low = None,
      album_song_count = None, album_artist = None\<rparr>"

definition padded_song :: Song where
  "padded_song =
     \<lparr>doc_id = ''s1'', doc_coverPath_low = None, doc_coverPath_high = None,
      doc_artists = Some [''Daft Punk''],
      doc_album = Some padded_album,
      doc_genre = Some [''House'']\<rparr>"

text \<open>An album with covers and a counted song, and a song of that album with a new cover.\<close>

definition covered_album_db :: db where
  "covered_album_db =
     empty_db\<lparr>albums :=
                [\<lparr>album_id = ''a1'', album_name = Some ''Discovery'',
                  album_coverPath_high = Some ''/covers/old_high.jpg'',
                  album_coverPath_low = Some ''/covers/old_low.jpg'',
                  album_song_count = Some 2, album_artist = Some ''Daft Punk''\<rparr>]\<rparr>"

definition recover_song :: Song where
  "recover_song =
     \<lparr>doc_id = ''s9'', doc_coverPath_low = None, doc_coverPath_high = None,
      doc_artists = None,
      doc_album = Some \<lparr>album_id = [], album_name = Some ''discovery'',
                         album_coverPath_high = Some ''/covers/new_high.jpg'',
                         album_coverPath_low = None,
                         album_song_count = None, album_artist = None\<rparr>,
      doc_genre = None\<rparr>"


text \<open>
  A song that lists one artist twice, and another song with the same identifier and
  another artist.
\<close>

definition twice_artist_song :: Song where
  "twice_artist_song =
     \<lparr>doc_id = ''s1'', doc_coverPath_low = None, doc_coverPath_high = None,
      doc_artists = Some [''Daft Punk'', '' daft punk ''],
      doc_album = None, doc_genre = None\<rparr>"

definition other_artist_song :: Song where
  "other_artist_song =
     \<lparr>doc_id = ''s1'', doc_coverPath_low = None, doc_coverPath_high = None,
      doc_artists = Some [''Justice''],
      doc_album = None, doc_genre = None\<rparr>"

section \<open>Properties\<close>

subsection \<open>Playlists\<close>

lemma playlist_bridge_set_playlist_count [simp]:
  "playlist_bridge (set_playlist_count pid d) = playlist_bridge d"
  by (simp add: set_playlist_count_def)

lemma playlist_bridge_fold_count [simp]:
  "playlist_bridge (fold set_playlist_count ids d) = playlist_bridge d"
  by (induction ids arbitrary: d) simp_all

lemma playlist_bridge_updateSongCountPlaylists [simp]:
  "playlist_bridge (updateSongCountPlaylists d) = playlist_bridge d"
  by (simp add: updateSongCountPlaylists_def)

lemma playlist_bridge_fold_delete:
  "playlist_bridge (fold (delete_playlist_bridge p) ks d) =
     filter (\<lambda>b. \<not> (entity b = p \<and> song b \<in> set ks)) (playlist_bridge d)"
proof (induction ks arbitrary: d)
  case Nil
  show ?case by simp
next
  case (Cons k ks)
  have "playlist_bridge (fold (delete_playlist_bridge p) (k # ks) d) =
          filter (\<lambda>b. \<not> (entity b = p \<and> song b \<in> set ks))
            (filter (\<lambda>b. \<not> (entity b = p \<and> song b = k)) (playlist_bridge d))"
    by (simp add: Cons.IH delete_playlist_bridge_def)
  also have "\<dots> = filter (\<lambda>b. \<not> (entity b = p \<and> song b \<in> set (k # ks))) (playlist_bridge d)"
    by (auto intro: filter_cong)
  finally show ?case .
qed

text \<open>
  C10. \<open>removeFromPlaylist(playlist, s1, ..., sn)\<close> deletes from the playlist bridge
  exactly the rows of that playlist whose song column is one of the index strings
  \<open>"0"\<close> .. \<open>"n-1"\<close>; a row whose song is not such an index string stays, also when its
  song is one of the given identifiers.
\<close>

theorem removeFromPlaylist_deletes_index_keys:
  "playlist_bridge (removeFromPlaylist p songs d) =
     filter (\<lambda>b. \<not> (entity b = p \<and> song b \<in> string_of_nat ` {0..<length songs}))
       (playlist_bridge d)
   \<and> (\<forall>b \<in> set (playlist_bridge d). song b \<in> set songs \<longrightarrow>
         song b \<notin> string_of_nat ` {0..<length songs} \<longrightarrow>
         b \<in> set (playlist_bridge (removeFromPlaylist p songs d)))"
  by (simp add: removeFromPlaylist_def playlist_bridge_fold_delete array_keys_def)

theorem removeFromPlaylist_deletes_index_keys_witness:
  "\<lparr>song = ''songA'', entity = ''p1''\<rparr> \<in> set (playlist_bridge playlist_db)
   \<and> ''songA'' \<in> set [''songA'']
   \<and> ''songA'' \<notin> string_of_nat ` {0..<length [''songA'']}
   \<and> playlist_bridge (removeFromPlaylist ''p1'' [''songA''] playlist_db) =
       [\<lparr>song = ''songA'', entity = ''p1''\<rparr>]"
  using removeFromPlaylist_deletes_index_keys [of "''p1''" "[''songA'']" playlist_db]
  by (simp add: playlist_db_def empty_db_def string_of_nat.simps digit_char_def)

subsection \<open>Song counts of the albums\<close>

lemma album_bridge_set_album_count [simp]:
  "album_bridge (set_album_count a d) = album_bridge d"
  by (simp add: set_album_count_def)

lemma fold_set_album_count:
  "album_bridge (fold set_album_count ids d) = album_bridge d \<and>
   albums (fold set_album_count ids d) =
     map (\<lambda>r. if album_id r \<in> set ids
              then r\<lparr>album_song_count := Some (count_bridge (album_bridge d) (album_id r))\<rparr>
              else r) (albums d)"
proof (induction ids arbitrary: d)
  case Nil
  show ?case by simp
next
  case (Cons a ids)
  have "albums (set_album_count a d) =
          map (\<lambda>r. if album_id r = a
                   then r\<lparr>album_song_count := Some (count_bridge (album_bridge d) a)\<rparr>
                   else r) (albums d)"
    by (simp add: set_album_count_def)
  then show ?case
    using Cons.IH [of "set_album_count a d"] by auto
qed

text \<open>
  C9. After \<open>updateSongCountAlbum\<close> every row of table \<open>albums\<close> has
  \<open>album_song_count\<close> equal to the number of rows of the album bridge whose column
  \<open>album\<close> is the \<open>album_id\<close> of the row.
\<close>

theorem updateSongCountAlbum_counts:
  "\<forall>r \<in> set (albums (updateSongCountAlbum d)).
     album_song_count r =
       Some (length (filter (\<lambda>b. entity b = album_id r) (album_bridge (updateSongCountAlbum d))))"
  by (auto simp: updateSongCountAlbum_def fold_set_album_count count_bridge_def)

theorem updateSongCountAlbum_counts_witness:
  "\<lparr>album_id = ''a2'', album_name = Some ''Homework'', album_coverPath_high = None,
     album_coverPath_low = None, album_song_count = Some 0, album_artist = None\<rparr>
     \<in> set (albums (updateSongCountAlbum album_db))
   \<and> map album_song_count (albums (updateSongCountAlbum album_db)) = [Some 2, Some 0]"
proof -
  have eq: "albums (updateSongCountAlbum album_db) =
     [\<lparr>album_id = ''a1'', album_name = Some ''Discovery'', album_coverPath_high = None,
       album_coverPath_low = None, album_song_count = Some 2, album_artist = None\<rparr>,
      \<lparr>album_id = ''a2'', album_name = Some ''Homework'', album_coverPath_high = None,
       album_coverPath_low = None, album_song_count = Some 0, album_artist = None\<rparr>]"
    by (simp add: updateSongCountAlbum_def album_db_def empty_db_def set_album_count_def
        count_bridge_def)
  show ?thesis
    using updateSongCountAlbum_counts [of album_db] by (simp add: eq)
qed

subsection \<open>Removing a song: the bridge tables\<close>

lemma remove_album_step_frame:
  "artists_bridge (snd (remove_album_step i acc)) = artists_bridge (snd acc) \<and>
   album_bridge (snd (remove_album_step i acc)) = album_bridge (snd acc) \<and>
   genre_bridge (snd (remove_album_step i acc)) = genre_bridge (snd acc) \<and>
   playlist_bridge (snd (remove_album_step i acc)) = playlist_bridge (snd acc) \<and>
   allsongs (snd (remove_album_step i acc)) = allsongs (snd acc) \<and>
   artists (snd (remove_album_step i acc)) = artists (snd acc)"
  by (cases acc) (simp add: remove_album_step_def Let_def)

lemma remove_artist_step_frame:
  "artists_bridge (snd (remove_artist_step i acc)) = artists_bridge (snd acc) \<and>
   album_bridge (snd (remove_artist_step i acc)) = album_bridge (snd acc) \<and>
   genre_bridge (snd (remove_artist_step i acc)) = genre_bridge (snd acc) \<and>
   playlist_bridge (snd (remove_artist_step i acc)) = playlist_bridge (snd acc) \<and>
   allsongs (snd (remove_artist_step i acc)) = allsongs (snd acc) \<and>
   albums (snd (remove_artist_step i acc)) = albums (snd acc)"
  by (cases acc) (simp add: remove_artist_step_def Let_def)

lemma fold_remove_album_step_frame:
  "artists_bridge (snd (fold remove_album_step is acc)) = artists_bridge (snd acc) \<and>
   album_bridge (snd (fold remove_album_step is acc)) = album_bridge (snd acc) \<and>
   genre_bridge (snd (fold remove_album_step is acc)) = genre_bridge (snd acc) \<and>
   playlist_bridge (snd (fold remove_album_step is acc)) = playlist_bridge (snd acc) \<and>
   allsongs (snd (fold remove_album_step is acc)) = allsongs (snd acc) \<and>
   artists (snd (fold remove_album_step is acc)) = artists (snd acc)"
  by (induction "is" arbitrary: acc) (simp_all add: remove_album_step_frame)

lemma fold_remove_artist_step_frame:
  "artists_bridge (snd (fold remove_artist_step is acc)) = artists_bridge (snd acc) \<and>
   album_bridge (snd (fold remove_artist_step is acc)) = album_bridge (snd acc) \<and>
   genre_bridge (snd (fold remove_artist_step is acc)) = genre_bridge (snd acc) \<and>
   playlist_bridge (snd (fold remove_artist_step is acc)) = playlist_bridge (snd acc) \<and>
   allsongs (snd (fold remove_artist_step is acc)) = allsongs (snd acc) \<and>
   albums (snd (fold remove_artist_step is acc)) = albums (snd acc)"
  by (induction "is" arbitrary: acc) (simp_all add: remove_artist_step_frame)

lemma removeSong_transaction_bridges:
  "artists_bridge (snd (removeSong_transaction s d)) = filter (\<lambda>b. song b \<noteq> s) (artists_bridge d)"
  "album_bridge (snd (removeSong_transaction s d)) = filter (\<lambda>b. song b \<noteq> s) (album_bridge d)"
  "genre_bridge (snd (removeSong_transaction s d)) = filter (\<lambda>b. song b \<noteq> s) (genre_bridge d)"
  "playlist_bridge (snd (removeSong_transaction s d)) = filter (\<lambda>b. song b \<noteq> s) (playlist_bridge d)"
  "allsongs (snd (removeSong_transaction s d)) = filter (\<lambda>r. song_id r \<noteq> s) (allsongs d)"
  by (simp_all add: removeSong_transaction_def Let_def fold_remove_artist_step_frame
      fold_remove_album_step_frame delete_song_rows_def)

lemma snd_removeSong: "snd (removeSong unlink s d) = snd (removeSong_transaction s d)"
  by (simp add: removeSong_def split: prod.splits)

text \<open>
  C5. After \<open>removeSong(id)\<close> no row of the four bridge tables \<open>artists_bridge\<close>,
  \<open>album_bridge\<close>, \<open>genre_bridge\<close> and \<open>playlist_bridge\<close> has its column \<open>song\<close>
  equal to the identifier, whatever the database was and however the removal of the
  files ends.
\<close>

theorem removeSong_no_dangling_bridges:
  "filter (\<lambda>b. song b = s) (artists_bridge (snd (removeSong unlink s d))) = [] \<and>
   filter (\<lambda>b. song b = s) (album_bridge (snd (removeSong unlink s d))) = [] \<and>
   filter (\<lambda>b. song b = s) (genre_bridge (snd (removeSong unlink s d))) = [] \<and>
   filter (\<lambda>b. song b = s) (playlist_bridge (snd (removeSong unlink s d))) = []"
  by (simp add: snd_removeSong removeSong_transaction_bridges)

theorem removeSong_no_dangling_bridges_witness:
  "filter (\<lambda>b. song b = ''s1'') (artists_bridge shared_db) \<noteq> []
   \<and> filter (\<lambda>b. song b = ''s1'') (playlist_bridge shared_db) \<noteq> []
   \<and> filter (\<lambda>b. song b = ''s1'') (artists_bridge (snd (removeSong no_fs_error ''s1'' shared_db))) = []
   \<and> filter (\<lambda>b. song b = ''s1'') (album_bridge (snd (removeSong no_fs_error ''s1'' shared_db))) = []
   \<and> filter (\<lambda>b. song b = ''s1'') (genre_bridge (snd (removeSong no_fs_error ''s1'' shared_db))) = []
   \<and> filter (\<lambda>b. song b = ''s1'') (playlist_bridge (snd (removeSong no_fs_error ''s1'' shared_db))) = []"
  using removeSong_no_dangling_bridges [of "''s1''" no_fs_error shared_db]
  by (simp add: shared_db_def empty_db_def)

subsection \<open>Removing a song: the cascade to the artists\<close>

lemma like_chars_refl: "like_chars p p"
proof (induction p)
  case Nil
  show ?case by simp
next
  case (Cons c p)
  show ?case
  proof (cases "c = ''%''")
    case True
    then show ?thesis using Cons.IH by (cases p) auto
  next
    case False
    then show ?thesis using Cons.IH by simp
  qed
qed

lemma like_refl: "like p p"
  by (simp add: like_def like_chars_refl)

lemma nocase_upper: "nocase c = c \<longleftrightarrow> c \<notin> set ''ABCDEFGHIJKLMNOPQRSTUVWXYZ''"
  by (simp add: nocase_def)

lemma uuid_char_plain:
  assumes "c \<in> set ''0123456789abcdef-''"
  shows "c \<noteq> CHR ''%''" "c \<noteq> CHR ''_''" "nocase c = c" "\<not> CHR 0xC0 \<le> c"
  using assms by (auto simp: nocase_upper)

lemma utf8_chars_uuid: "uuid_chars a \<Longrightarrow> utf8_chars a = map (\<lambda>c. [c]) a"
  by (induction a) (simp_all add: uuid_chars_def uuid_char_plain(4))

lemma like_chars_plain:
  "uuid_chars a \<Longrightarrow> uuid_chars b \<Longrightarrow>
   like_chars (map (\<lambda>c. [c]) a) (map (\<lambda>c. [c]) b) \<longleftrightarrow> a = b"
proof (induction a arbitrary: b)
  case Nil
  show ?case by auto
next
  case (Cons c a)
  have ca: "c \<in> set ''0123456789abcdef-''" "uuid_chars a"
    using Cons.prems(1) by (simp_all add: uuid_chars_def)
  note c = uuid_char_plain [OF ca(1)]
  show ?case
  proof (cases b)
    case Nil
    then show ?thesis using c by simp
  next
    case (Cons x t)
    have xt: "x \<in> set ''0123456789abcdef-''" "uuid_chars t"
      using Cons.prems(2) Cons by (simp_all add: uuid_chars_def)
    have x: "nocase x = x"
      by (rule uuid_char_plain(3) [OF xt(1)])
    have "like_chars (map (\<lambda>c. [c]) a) (map (\<lambda>c. [c]) t) \<longleftrightarrow> a = t"
      using ca(2) xt(2) by (rule Cons.IH)
    then show ?thesis
      using c x Cons by simp
  qed
qed

lemma like_plain:
  "uuid_chars a \<Longrightarrow> uuid_chars b \<Longrightarrow> like a b \<longleftrightarrow> a = b"
  by (simp add: like_def utf8_chars_uuid like_chars_plain)













subsection \<open>The pattern of a predicate\<close>

text \<open>
  The wildcard \<open>_\<close> takes one character, of one byte or of several (here U+00E9), and
  \<open>trim\<close> takes the white space outside ASCII as well (here U+00A0 and U+3000).
\<close>

lemma like_underscore_char:
  "like ''a_1'' [CHR ''a'', CHR 0xC3, CHR 0xA9, CHR ''1'']"
  "\<not> like ''a_1'' [CHR ''a'', CHR 0xC3, CHR 0xA9, CHR 0xC3, CHR 0xA9, CHR ''1'']"
  by (simp_all add: like_def is_cont_def nocase_def)

lemma trim_wide_space:
  "trim ([CHR 0xC2, CHR 0xA0] @ '' Discovery '' @ [CHR 0xE3, CHR 0x80, CHR 0x80]) = ''Discovery''"
  by (simp add: trim_def is_ws_def white_space_def is_cont_def)

lemma like_chars_percent:
  "like_chars (''%'' # ps) s \<longleftrightarrow> (\<exists>pre rest. s = pre @ rest \<and> like_chars ps rest)"
proof (induction s)
  case Nil
  show ?case by simp
next
  case (Cons x t)
  have "like_chars (''%'' # ps) (x # t) \<longleftrightarrow> like_chars ps (x # t) \<or> like_chars (''%'' # ps) t"
    by simp
  also have "\<dots> \<longleftrightarrow> like_chars ps (x # t) \<or> (\<exists>pre rest. t = pre @ rest \<and> like_chars ps rest)"
    using Cons.IH by simp
  also have "\<dots> \<longleftrightarrow> (\<exists>pre rest. x # t = pre @ rest \<and> like_chars ps rest)"
  proof
    assume "like_chars ps (x # t) \<or> (\<exists>pre rest. t = pre @ rest \<and> like_chars ps rest)"
    then show "\<exists>pre rest. x # t = pre @ rest \<and> like_chars ps rest"
    proof
      assume "like_chars ps (x # t)"
      then have "x # t = [] @ (x # t) \<and> like_chars ps (x # t)" by simp
      then show ?thesis by blast
    next
      assume "\<exists>pre rest. t = pre @ rest \<and> like_chars ps rest"
      then obtain pre rest where "t = pre @ rest" "like_chars ps rest" by blast
      then have "x # t = (x # pre) @ rest \<and> like_chars ps rest" by simp
      then show ?thesis by blast
    qed
  next
    assume "\<exists>pre rest. x # t = pre @ rest \<and> like_chars ps rest"
    then obtain pre rest where pr: "x # t = pre @ rest" "like_chars ps rest" by blast
    show "like_chars ps (x # t) \<or> (\<exists>pre rest. t = pre @ rest \<and> like_chars ps rest)"
    proof (cases pre)
      case Nil
      then show ?thesis using pr by simp
    next
      case (Cons y pre')
      then have "t = pre' @ rest" using pr(1) by simp
      then show ?thesis using pr(2) by blast
    qed
  qed
  finally show ?case .
qed

lemma like_chars_append:
  "like_chars (p @ q) s \<longleftrightarrow> (\<exists>a b. s = a @ b \<and> like_chars p a \<and> like_chars q b)"
proof (induction p arbitrary: s)
  case Nil
  show ?case by simp
next
  case (Cons c p)
  show ?case
  proof (cases "c = ''%''")
    case True
    have "like_chars ((c # p) @ q) s \<longleftrightarrow> (\<exists>pre rest. s = pre @ rest \<and> like_chars (p @ q) rest)"
      using True like_chars_percent [of "p @ q" s] by simp
    also have "\<dots> \<longleftrightarrow> (\<exists>pre a b. s = pre @ a @ b \<and> like_chars p a \<and> like_chars q b)"
      using Cons.IH by blast
    also have "\<dots> \<longleftrightarrow> (\<exists>a' b. s = a' @ b \<and> like_chars (c # p) a' \<and> like_chars q b)"
    proof
      assume "\<exists>pre a b. s = pre @ a @ b \<and> like_chars p a \<and> like_chars q b"
      then obtain pre a b where h: "s = pre @ a @ b" "like_chars p a" "like_chars q b" by blast
      have "like_chars (c # p) (pre @ a)"
        using True h(2) like_chars_percent [of p "pre @ a"] by blast
      then have "s = (pre @ a) @ b \<and> like_chars (c # p) (pre @ a) \<and> like_chars q b"
        using h by simp
      then show "\<exists>a' b. s = a' @ b \<and> like_chars (c # p) a' \<and> like_chars q b" by blast
    next
      assume "\<exists>a' b. s = a' @ b \<and> like_chars (c # p) a' \<and> like_chars q b"
      then obtain a' b where h: "s = a' @ b" "like_chars (c # p) a'" "like_chars q b" by blast
      obtain pre a where "a' = pre @ a" "like_chars p a"
        using True h(2) like_chars_percent [of p a'] by blast
      then have "s = pre @ a @ b \<and> like_chars p a \<and> like_chars q b" using h by simp
      then show "\<exists>pre a b. s = pre @ a @ b \<and> like_chars p a \<and> like_chars q b" by blast
    qed
    finally show ?thesis .
  next
    case False
    show ?thesis
    proof (cases s)
      case Nil
      then show ?thesis using False by simp
    next
      case (Cons x t)
      have "like_chars ((c # p) @ q) s \<longleftrightarrow>
              (c = ''_'' \<or> map nocase c = map nocase x) \<and> (\<exists>a b. t = a @ b \<and> like_chars p a \<and> like_chars q b)"
        using False Cons Cons.IH [of t] by simp
      also have "\<dots> \<longleftrightarrow> (\<exists>a' b. s = a' @ b \<and> like_chars (c # p) a' \<and> like_chars q b)"
      proof
        assume h: "(c = ''_'' \<or> map nocase c = map nocase x) \<and> (\<exists>a b. t = a @ b \<and> like_chars p a \<and> like_chars q b)"
        then obtain a b where ab: "t = a @ b" "like_chars p a" "like_chars q b" by blast
        have "s = (x # a) @ b \<and> like_chars (c # p) (x # a) \<and> like_chars q b"
          using h ab False Cons by simp
        then show "\<exists>a' b. s = a' @ b \<and> like_chars (c # p) a' \<and> like_chars q b" by blast
      next
        assume "\<exists>a' b. s = a' @ b \<and> like_chars (c # p) a' \<and> like_chars q b"
        then obtain a' b where h: "s = a' @ b" "like_chars (c # p) a'" "like_chars q b" by blast
        obtain y a where a': "a' = y # a"
          using h(2) False by (cases a') auto
        have "y = x" "t = a @ b" using h(1) a' Cons by simp_all
        then show "(c = ''_'' \<or> map nocase c = map nocase x) \<and> (\<exists>a b. t = a @ b \<and> like_chars p a \<and> like_chars q b)"
          using h(2,3) a' False by auto
      qed
      finally show ?thesis .
    qed
  qed
qed


lemma like_chars_any: "like_chars [''%''] s"
  using like_chars_percent [of "[]" s] by simp

lemma like_chars_wrapped:
  "like_chars ([''%''] @ v @ [''%'']) s \<longleftrightarrow> (\<exists>pre mid post. s = pre @ mid @ post \<and> like_chars v mid)"
proof -
  have tail: "like_chars (v @ [''%'']) rest \<longleftrightarrow> (\<exists>mid post. rest = mid @ post \<and> like_chars v mid)" for rest
    by (simp only: like_chars_append like_chars_any simp_thms)
  have "like_chars ([''%''] @ v @ [''%'']) s \<longleftrightarrow> (\<exists>pre rest. s = pre @ rest \<and> like_chars (v @ [''%'']) rest)"
    using like_chars_percent [of "v @ [''%'']" s] by simp
  also have "\<dots> \<longleftrightarrow> (\<exists>pre rest. s = pre @ rest \<and> (\<exists>mid post. rest = mid @ post \<and> like_chars v mid))"
    by (simp only: tail)
  also have "\<dots> \<longleftrightarrow> (\<exists>pre mid post. s = pre @ mid @ post \<and> like_chars v mid)"
    by auto
  finally show ?thesis .
qed

lemma dropWhile_snoc: "\<not> P c \<Longrightarrow> dropWhile P (t @ [c]) = dropWhile P t @ [c]"
  by (induction t) auto

lemma takeWhile_snoc: "\<not> P c \<Longrightarrow> takeWhile P (t @ [c]) = takeWhile P t"
  by (induction t) auto

lemma utf8_chars_snoc:
  "c < CHR 0x80 \<Longrightarrow> utf8_chars (s @ [c]) = utf8_chars s @ [[c]]"
proof (induction s rule: utf8_chars.induct)
  case 1
  then show ?case by auto
next
  case (2 x t)
  have nc: "\<not> is_cont c"
    using "2.prems" by (auto simp: is_cont_def)
  show ?case
  proof (cases "CHR 0xC0 \<le> x")
    case True
    then show ?thesis
      using "2.IH"(1) "2.prems" nc by (simp add: dropWhile_snoc takeWhile_snoc)
  next
    case False
    then show ?thesis
      using "2.IH"(2) "2.prems" by simp
  qed
qed

lemma utf8_chars_wrapped:
  "utf8_chars (''%'' @ v @ ''%'') = [''%''] @ utf8_chars v @ [''%'']"
proof -
  have "utf8_chars (v @ ''%'') = utf8_chars v @ [''%'']"
    by (rule utf8_chars_snoc) simp
  then show ?thesis by simp
qed

lemma like_wrapped:
  "like (''%'' @ v @ ''%'') s \<longleftrightarrow>
     (\<exists>pre mid post. utf8_chars s = pre @ mid @ post \<and> like_chars (utf8_chars v) mid)"
  unfolding like_def utf8_chars_wrapped by (rule like_chars_wrapped)

subsection \<open>The arguments of the queries\<close>

lemma where_predicate_args:
  "fst (snd (where_predicate inc t kv st)) = fst (snd st) @ [''%'' @ snd kv @ ''%'']"
  by (cases st) (simp add: where_predicate_def)

lemma entity_predicate_args:
  "fst (snd (entity_predicate inc kv st)) = fst (snd st) @ [snd kv]"
  by (cases st) (simp add: entity_predicate_def)

lemma fold_where_predicate_args:
  "fst (snd (fold (where_predicate inc t) fs st)) =
     fst (snd st) @ map (\<lambda>v. ''%'' @ v @ ''%'') (map snd fs)"
proof (induction fs arbitrary: st)
  case Nil
  show ?case by simp
next
  case (Cons kv fs)
  show ?case
    by (simp add: Cons.IH where_predicate_args)
qed

lemma where_entry_args:
  "fst (snd (where_entry inc kv st)) =
     fst (snd st) @ map (\<lambda>v. ''%'' @ v @ ''%'')
       (if fst kv \<noteq> ''inclusive'' \<and> fst kv \<noteq> ''sortBy'' then map snd (entries_of (snd kv)) else [])"
  by (simp add: where_entry_def fold_where_predicate_args)

lemma fold_where_entry_args:
  "fst (snd (fold (where_entry inc) opts st)) =
     fst (snd st) @ map (\<lambda>v. ''%'' @ v @ ''%'') (predicate_values opts)"
proof (induction opts arbitrary: st)
  case Nil
  show ?case by (simp add: predicate_values_def)
next
  case (Cons kv opts)
  have "predicate_values (kv # opts) =
          (if fst kv \<noteq> ''inclusive'' \<and> fst kv \<noteq> ''sortBy'' then map snd (entries_of (snd kv)) else [])
          @ predicate_values opts"
    by (simp add: predicate_values_def)
  then show ?case
    by (simp add: Cons.IH where_entry_args)
qed

lemma populateWhereQuery_args:
  "snd (populateWhereQuery (Some opts)) = map (\<lambda>v. ''%'' @ v @ ''%'') (predicate_values opts)"
proof -
  obtain w args b where f: "fold (where_entry (inclusive_of opts)) opts (''WHERE '', [], True) = (w, args, b)"
    by (cases "fold (where_entry (inclusive_of opts)) opts (''WHERE '', [], True)")
  have "args = map (\<lambda>v. ''%'' @ v @ ''%'') (predicate_values opts)"
    using fold_where_entry_args [of "inclusive_of opts" opts "(''WHERE '', [], True)"] f by simp
  then show ?thesis
    by (auto simp: populateWhereQuery_def f)
qed

lemma fold_entity_predicate_args:
  "fst (snd (fold (entity_predicate inc) fs st)) = fst (snd st) @ map snd fs"
proof (induction fs arbitrary: st)
  case Nil
  show ?case by simp
next
  case (Cons kv fs)
  show ?case
    by (simp add: Cons.IH entity_predicate_args)
qed

lemma entity_entries_args:
  assumes "\<forall>kv \<in> set pre. getTableByProperty (fst kv) = None"
    and "getTableByProperty key \<noteq> None"
  shows "snd (snd (snd (entity_entries inc (pre @ (key, Fields fs) # post) (q, ob, w, args)))) =
           args @ map snd fs"
  using assms(1)
proof (induction pre)
  case Nil
  obtain t where t: "getTableByProperty key = Some t" using assms(2) by auto
  obtain w' args' b' where f: "fold (entity_predicate inc) fs (w, args, True) = (w', args', b')"
    by (cases "fold (entity_predicate inc) fs (w, args, True)")
  have "args' = args @ map snd fs"
    using fold_entity_predicate_args [of inc fs "(w, args, True)"] f by simp
  then show ?case
    by (simp add: t f entries_of_def Let_def)
next
  case (Cons kv pre)
  obtain k v where kv: "kv = (k, v)" by (cases kv)
  show ?case
    using Cons by (simp add: kv)
qed

lemma getEntityByOptions_query_args:
  assumes "\<forall>kv \<in> set pre. getTableByProperty (fst kv) = None"
    and "getTableByProperty key \<noteq> None"
  shows "snd (getEntityByOptions_query (pre @ (key, Fields fs) # post)) = map snd fs"
proof -
  let ?opts = "pre @ (key, Fields fs) # post"
  obtain q ob w args where e:
    "entity_entries (inclusive_of ?opts) ?opts (''SELECT * FROM '', None, ''WHERE '', []) = (q, ob, w, args)"
    by (cases "entity_entries (inclusive_of ?opts) ?opts (''SELECT * FROM '', None, ''WHERE '', [])")
  have "args = map snd fs"
    using entity_entries_args [OF assms, of "inclusive_of ?opts" fs post "''SELECT * FROM ''" None "''WHERE ''" "[]"] e
    by simp
  then show ?thesis
    by (simp add: getEntityByOptions_query_def e)
qed

lemma getSongByOptions_query_args:
  "snd (getSongByOptions_query utils options exclude) = snd (populateWhereQuery options)"
  by (simp add: getSongByOptions_query_def split: prod.splits)

lemma getEntityByOptions_query_one:
  "getTableByProperty key = Some t \<Longrightarrow>
   getEntityByOptions_query [(key, Fields [(col, v)])] =
     (''SELECT * FROM '' @ t @ ''  WHERE  '' @ col @ '' LIKE ? ORDER BY '' @ t @ ''.'' @
      js_string (getTitleColByProperty key) @ '' ASC'', [v])"
  by (simp add: getEntityByOptions_query_def entries_of_def entity_predicate_def addANDorOR_def
      js_string_def)

lemma searchAll_args: "map snd (searchAll_queries utils t ex) = [[''%'' @ t @ ''%''], [t], [t], [t]]"
  by (simp add: searchAll_queries_def getSongByOptions_query_args populateWhereQuery_args
      predicate_values_def entries_of_def getEntityByOptions_query_one getTableByProperty_def)

lemma like_oo: "\<not> like ''oo'' ''Foo''" "like ''%oo%'' ''Foo''"
  by (simp_all add: like_def nocase_def)

text \<open>
  C6, as the claim states it, fails: in an entity query the value is bound as the caller
  gives it. The album query for \<open>oo\<close> has the argument \<open>oo\<close>, which as a pattern
  does not match the name \<open>Foo\<close>, while \<open>%oo%\<close> does.
\<close>

theorem entity_predicate_not_wrapped:
  "snd (getEntityByOptions_query [(''album'', Fields [(''album_name'', ''oo'')])]) = [''oo'']
   \<and> snd (getEntityByOptions_query [(''album'', Fields [(''album_name'', ''oo'')])]) \<noteq> [''%oo%'']
   \<and> \<not> like ''oo'' ''Foo'' \<and> like ''%oo%'' ''Foo''"
  by (simp add: getEntityByOptions_query_def getTableByProperty_def entries_of_def
      entity_predicate_def inclusive_of_def like_oo)

text \<open>
  C6, amended. A song query (\<open>getSongByOptions\<close>, and the song query of \<open>searchAll\<close>)
  binds every value of the caller wrapped as \<open>%value%\<close>, and such a pattern matches a
  column exactly when the value matches a substring of it (a run of its characters). An entity query
  (\<open>getEntityByOptions\<close>, and the album, artist and genre queries of \<open>searchAll\<close>)
  binds every value as the caller gives it.
\<close>

theorem predicates_wrapped_in_song_queries_only:
  "snd (getSongByOptions_query utils (Some opts) exclude) =
     map (\<lambda>v. ''%'' @ v @ ''%'') (predicate_values opts)
   \<and> (\<forall>pre key fs post.
         (\<forall>kv \<in> set pre. getTableByProperty (fst kv) = None) \<and> getTableByProperty key \<noteq> None \<longrightarrow>
         snd (getEntityByOptions_query (pre @ (key, Fields fs) # post)) = map snd fs)
   \<and> map snd (searchAll_queries utils t ex) = [[''%'' @ t @ ''%''], [t], [t], [t]]
   \<and> (\<forall>v s. like (''%'' @ v @ ''%'') s \<longleftrightarrow>
         (\<exists>pre mid post. utf8_chars s = pre @ mid @ post \<and> like_chars (utf8_chars v) mid))"
proof -
  have "\<forall>pre key fs post.
         (\<forall>kv \<in> set pre. getTableByProperty (fst kv) = None) \<and> getTableByProperty key \<noteq> None \<longrightarrow>
         snd (getEntityByOptions_query (pre @ (key, Fields fs) # post)) = map snd fs"
    using getEntityByOptions_query_args by blast
  then show ?thesis
    by (simp only: getSongByOptions_query_args populateWhereQuery_args searchAll_args
        like_wrapped simp_thms)
qed

theorem predicates_wrapped_in_song_queries_only_witness:
  "getTableByProperty ''inclusive'' = None \<and> getTableByProperty ''album'' \<noteq> None
   \<and> snd (getEntityByOptions_query
            [(''inclusive'', Flag True), (''album'', Fields [(''album_name'', ''oo'')])]) = [''oo'']
   \<and> snd (getSongByOptions_query utils_ex
            (Some [(''song'', Fields [(''title'', ''love'')]), (''inclusive'', Flag True)]) None) =
       [''%love%'']"
proof -
  have t: "\<forall>kv \<in> set [(''inclusive'', Flag True)]. getTableByProperty (fst kv) = None"
    "getTableByProperty ''album'' \<noteq> None"
    by (simp_all add: getTableByProperty_def)
  from predicates_wrapped_in_song_queries_only
    [of utils_ex "[(''song'', Fields [(''title'', ''love'')]), (''inclusive'', Flag True)]" None]
  have a: "snd (getSongByOptions_query utils_ex
            (Some [(''song'', Fields [(''title'', ''love'')]), (''inclusive'', Flag True)]) None) =
       [''%love%'']"
    and b: "\<forall>pre key fs post.
         (\<forall>kv \<in> set pre. getTableByProperty (fst kv) = None) \<and> getTableByProperty key \<noteq> None \<longrightarrow>
         snd (getEntityByOptions_query (pre @ (key, Fields fs) # post)) = map snd fs"
    by (simp_all add: predicate_values_def entries_of_def)
  from b t have "snd (getEntityByOptions_query
       ([(''inclusive'', Flag True)] @ (''album'', Fields [(''album_name'', ''oo'')]) # [])) =
       map snd [(''album_name'', ''oo'')]"
    by blast
  then show ?thesis
    using a t by simp
qed

subsection \<open>The order of the results\<close>

lemma getSongByOptions_query_order:
  "\<exists>sel. fst (getSongByOptions_query utils options exclude) =
     sel @ '' GROUP BY allsongs._id '' @ addOrderClause (sortBy_of options)"
  by (simp add: getSongByOptions_query_def split: prod.splits)

lemma entity_entries_skip:
  "\<forall>kv \<in> set xs. getTableByProperty (fst kv) = None \<Longrightarrow>
   entity_entries inc (xs @ ys) st = entity_entries inc ys st"
proof (induction xs)
  case Nil
  show ?case by simp
next
  case (Cons kv xs)
  obtain k v where kv: "kv = (k, v)" by (cases kv)
  obtain q ob w a where st: "st = (q, ob, w, a)" by (cases st)
  show ?case
    using Cons by (simp add: kv st)
qed

lemma entity_entries_skip_all:
  "\<forall>kv \<in> set xs. getTableByProperty (fst kv) = None \<Longrightarrow> entity_entries inc xs st = st"
  using entity_entries_skip [of xs inc "[]" st] by simp

lemma entity_entries_category:
  assumes one: "filter (\<lambda>kv. getTableByProperty (fst kv) \<noteq> None) options = [(key, v)]"
    and t: "getTableByProperty key = Some t"
  shows "\<exists>w a. entity_entries inc options (q, ob, whr, args) =
           (q @ t @ '' '', Some (t @ ''.'' @ js_string (getTitleColByProperty key)), w, a)"
proof -
  obtain us vs where opts: "options = us @ (key, v) # vs"
    and us: "\<forall>u \<in> set us. \<not> getTableByProperty (fst u) \<noteq> None"
    and vs: "filter (\<lambda>kv. getTableByProperty (fst kv) \<noteq> None) vs = []"
    using one by (auto simp: filter_eq_Cons_iff)
  have us': "\<forall>kv \<in> set us. getTableByProperty (fst kv) = None"
    using us by simp
  have vs': "\<forall>kv \<in> set vs. getTableByProperty (fst kv) = None"
    using vs by (simp add: filter_empty_conv)
  have start: "entity_entries inc options (q, ob, whr, args) =
                 entity_entries inc ((key, v) # vs) (q, ob, whr, args)"
    unfolding opts by (rule entity_entries_skip [OF us'])
  show ?thesis
  proof (cases v)
    case (Flag b)
    then show ?thesis
      using t by (simp add: start entity_entries_skip_all [OF vs'] Let_def)
  next
    case (SortBy so)
    then show ?thesis
      using t by (simp add: start Let_def split: prod.splits)
  next
    case (Fields fs)
    then show ?thesis
      using t by (simp add: start Let_def split: prod.splits)
  qed
qed

lemma getEntityByOptions_query_category:
  assumes "filter (\<lambda>kv. getTableByProperty (fst kv) \<noteq> None) options = [(key, v)]"
    and "getTableByProperty key = Some t" and "getTitleColByProperty key = Some c"
  shows "\<exists>sel. fst (getEntityByOptions_query options) =
           sel @ '' ORDER BY '' @ t @ ''.'' @ c @ '' ASC''"
proof -
  obtain w a where "entity_entries (inclusive_of options) options (''SELECT * FROM '', None, ''WHERE '', []) =
      (''SELECT * FROM '' @ t @ '' '', Some (t @ ''.'' @ js_string (getTitleColByProperty key)), w, a)"
    using entity_entries_category [OF assms(1,2)] by blast
  then show ?thesis
    using assms(3) by (simp add: getEntityByOptions_query_def js_string_def)
qed

text \<open>
  C8, as the claim states it, fails twice. A song query whose sort specification has
  another type than \<open>name\<close> is ordered by \<open>date_added\<close>, not by \<open>title\<close>; and an
  entity query, which takes no sort specification, has an \<open>ORDER BY\<close> all the same.
\<close>

theorem order_not_by_title_counterexample:
  "fst (getSongByOptions_query utils_ex
          (Some [(''sortBy'', SortBy \<lparr>sort_type = ''date_added'', asc = True\<rparr>)]) None) =
     ''SELECT *, group_concat(artist_name) as artists FROM allsongs'' @ [CHR 0x0A] @
     ''      LEFT JOIN artists_bridge ON allsongs._id = artists_bridge.song'' @ [CHR 0x0A] @
     ''        '' @ [CHR 0x0A] @
     ''         GROUP BY allsongs._id ORDER BY date_added ASC''
   \<and> fst (getEntityByOptions_query [(''album'', Flag True)]) =
     ''SELECT * FROM albums   ORDER BY albums.album_name ASC''"
  by (simp add: getSongByOptions_query_def populateWhereQuery_def where_entry_def utils_ex_def
      addOrderClause_def sortBy_of_def getEntityByOptions_query_def getTableByProperty_def
      getTitleColByProperty_def js_string_def inclusive_of_def)

text \<open>
  C8, amended. A song query with a sort specification ends in \<open>ORDER BY title\<close> when
  the type of the specification is \<open>name\<close> and in \<open>ORDER BY date_added\<close> for any other
  type, \<open>ASC\<close> when \<open>asc\<close> is set and \<open>DESC\<close> otherwise; without a specification
  nothing follows \<open>GROUP BY allsongs._id\<close>. An entity query, that is a query whose options
  name one category, whatever else they hold (\<open>inclusive\<close>) and whatever the value of the
  category is, is always ordered by the title column of that category, ascending.
\<close>

theorem order_clauses:
  "(\<exists>sel. fst (getSongByOptions_query utils options exclude) =
      sel @ '' GROUP BY allsongs._id '' @
      (case sortBy_of options of
         None \<Rightarrow> []
       | Some so \<Rightarrow>
           ''ORDER BY '' @ (if sort_type so = ''name'' then ''title'' else ''date_added'') @ '' '' @
           (if asc so then ''ASC'' else ''DESC'')))
   \<and> (\<forall>opts v.
         (filter (\<lambda>kv. getTableByProperty (fst kv) \<noteq> None) opts = [(''album'', v)] \<longrightarrow>
            (\<exists>sel. fst (getEntityByOptions_query opts) = sel @ '' ORDER BY albums.album_name ASC''))
       \<and> (filter (\<lambda>kv. getTableByProperty (fst kv) \<noteq> None) opts = [(''artist'', v)] \<longrightarrow>
            (\<exists>sel. fst (getEntityByOptions_query opts) = sel @ '' ORDER BY artists.artist_name ASC''))
       \<and> (filter (\<lambda>kv. getTableByProperty (fst kv) \<noteq> None) opts = [(''genre'', v)] \<longrightarrow>
            (\<exists>sel. fst (getEntityByOptions_query opts) = sel @ '' ORDER BY genre.genre_name ASC''))
       \<and> (filter (\<lambda>kv. getTableByProperty (fst kv) \<noteq> None) opts = [(''playlist'', v)] \<longrightarrow>
            (\<exists>sel. fst (getEntityByOptions_query opts) =
               sel @ '' ORDER BY playlists.playlist_name ASC'')))"
proof -
  have song: "\<exists>sel. fst (getSongByOptions_query utils options exclude) =
      sel @ '' GROUP BY allsongs._id '' @
      (case sortBy_of options of
         None \<Rightarrow> []
       | Some so \<Rightarrow>
           ''ORDER BY '' @ (if sort_type so = ''name'' then ''title'' else ''date_added'') @ '' '' @
           (if asc so then ''ASC'' else ''DESC''))"
    using getSongByOptions_query_order [of utils options exclude]
    by (simp add: addOrderClause_def)
  have "\<exists>sel. fst (getEntityByOptions_query opts) = sel @ '' ORDER BY albums.album_name ASC''"
    if "filter (\<lambda>kv. getTableByProperty (fst kv) \<noteq> None) opts = [(''album'', v)]" for opts v
    using getEntityByOptions_query_category [OF that, of "''albums''" "''album_name''"]
    by (simp add: getTableByProperty_def getTitleColByProperty_def)
  moreover have "\<exists>sel. fst (getEntityByOptions_query opts) = sel @ '' ORDER BY artists.artist_name ASC''"
    if "filter (\<lambda>kv. getTableByProperty (fst kv) \<noteq> None) opts = [(''artist'', v)]" for opts v
    using getEntityByOptions_query_category [OF that, of "''artists''" "''artist_name''"]
    by (simp add: getTableByProperty_def getTitleColByProperty_def)
  moreover have "\<exists>sel. fst (getEntityByOptions_query opts) = sel @ '' ORDER BY genre.genre_name ASC''"
    if "filter (\<lambda>kv. getTableByProperty (fst kv) \<noteq> None) opts = [(''genre'', v)]" for opts v
    using getEntityByOptions_query_category [OF that, of "''genre''" "''genre_name''"]
    by (simp add: getTableByProperty_def getTitleColByProperty_def)
  moreover have "\<exists>sel. fst (getEntityByOptions_query opts) = sel @ '' ORDER BY playlists.playlist_name ASC''"
    if "filter (\<lambda>kv. getTableByProperty (fst kv) \<noteq> None) opts = [(''playlist'', v)]" for opts v
    using getEntityByOptions_query_category [OF that, of "''playlists''" "''playlist_name''"]
    by (simp add: getTableByProperty_def getTitleColByProperty_def)
  ultimately show ?thesis
    using song by blast
qed

theorem order_clauses_witness:
  "filter (\<lambda>kv. getTableByProperty (fst kv) \<noteq> None)
      [(''inclusive'', Flag True), (''genre'', Fields [(''genre_name'', ''House'')])] =
     [(''genre'', Fields [(''genre_name'', ''House'')])]
   \<and> (\<exists>sel. fst (getEntityByOptions_query
                [(''inclusive'', Flag True), (''genre'', Fields [(''genre_name'', ''House'')])]) =
         sel @ '' ORDER BY genre.genre_name ASC'')
   \<and> (\<exists>sel. fst (getSongByOptions_query utils_ex
                (Some [(''sortBy'', SortBy \<lparr>sort_type = ''name'', asc = False\<rparr>)]) None) =
         sel @ '' GROUP BY allsongs._id ORDER BY title DESC'')"
proof -
  have f: "filter (\<lambda>kv. getTableByProperty (fst kv) \<noteq> None)
      [(''inclusive'', Flag True), (''genre'', Fields [(''genre_name'', ''House'')])] =
     [(''genre'', Fields [(''genre_name'', ''House'')])]"
    by (simp add: getTableByProperty_def)
  from order_clauses
    [of utils_ex "Some [(''sortBy'', SortBy \<lparr>sort_type = ''name'', asc = False\<rparr>)]" None]
  have a: "\<exists>sel. fst (getSongByOptions_query utils_ex
                (Some [(''sortBy'', SortBy \<lparr>sort_type = ''name'', asc = False\<rparr>)]) None) =
         sel @ '' GROUP BY allsongs._id ORDER BY title DESC''"
    and b: "\<forall>opts v. (filter (\<lambda>kv. getTableByProperty (fst kv) \<noteq> None) opts = [(''genre'', v)] \<longrightarrow>
            (\<exists>sel. fst (getEntityByOptions_query opts) = sel @ '' ORDER BY genre.genre_name ASC''))"
    by (simp_all add: sortBy_of_def)
  from b f have "\<exists>sel. fst (getEntityByOptions_query
                [(''inclusive'', Flag True), (''genre'', Fields [(''genre_name'', ''House'')])]) =
         sel @ '' ORDER BY genre.genre_name ASC''"
    by blast
  then show ?thesis
    using a f by blast
qed

subsection \<open>The removal of the cover files\<close>

lemma rm_paths_ok:
  "rm_paths unlink ps = Inr () \<longleftrightarrow> (\<forall>p \<in> set ps. unlink p = None \<or> unlink p = Some ENOENT)"
  by (induction ps) (auto simp: rm_force_def split: option.splits fs_error.splits)

lemma rm_paths_error:
  "rm_paths unlink ps = Inl e \<Longrightarrow> e \<noteq> ENOENT \<and> (\<exists>p \<in> set ps. unlink p = Some e)"
  by (induction ps) (auto simp: rm_force_def split: option.splits fs_error.splits)

lemma fst_removeSong:
  "fst (removeSong unlink s d) = rm_paths unlink (fst (removeSong_transaction s d))"
  by (simp add: removeSong_def split: prod.splits)

text \<open>
  C7, as the claim states it, fails: the removal of a cover file that the operating system
  refuses (here with \<open>EACCES\<close>) rejects \<open>removeSong\<close>.
\<close>

theorem removeSong_propagates_fs_error:
  "fst (removeSong denied ''s1'' shared_db) = Inl EACCES"
  by (simp add: fst_removeSong removeSong_transaction_def Let_def shared_db_def empty_db_def
      getCountBySong_def count_bridge_def queryFirstCell_null_def queryFirstCell_def push_path_def
      truthy_def delete_song_rows_def remove_album_step_def remove_artist_step_def
      albums_by_id_def like_refl denied_def rm_force_def)

text \<open>
  C7, amended. After the transaction of \<open>removeSong\<close> each collected cover path is
  removed with \<open>force\<close>: a file that does not exist is passed over, and \<open>removeSong\<close>
  succeeds exactly when every path is removed or does not exist. Any other error of the
  file system is propagated to the caller. The database is the one the transaction left
  in either case.
\<close>

theorem removeSong_swallows_missing_files_only:
  "(fst (removeSong unlink s d) = Inr () \<longleftrightarrow>
      (\<forall>p \<in> set (fst (removeSong_transaction s d)). unlink p = None \<or> unlink p = Some ENOENT))
   \<and> (\<forall>e. fst (removeSong unlink s d) = Inl e \<longrightarrow>
         e \<noteq> ENOENT \<and> (\<exists>p \<in> set (fst (removeSong_transaction s d)). unlink p = Some e))
   \<and> snd (removeSong unlink s d) = snd (removeSong_transaction s d)"
  using rm_paths_error [of unlink "fst (removeSong_transaction s d)"]
  by (simp add: fst_removeSong snd_removeSong rm_paths_ok)

theorem removeSong_swallows_missing_files_only_witness:
  "fst (removeSong_transaction ''s1'' shared_db) = [''/covers/s1_low.jpg'', ''/covers/al1_high.jpg'']
   \<and> missing ''/covers/s1_low.jpg'' = Some ENOENT
   \<and> missing ''/covers/al1_high.jpg'' = None
   \<and> fst (removeSong missing ''s1'' shared_db) = Inr ()"
proof -
  have p: "fst (removeSong_transaction ''s1'' shared_db) =
             [''/covers/s1_low.jpg'', ''/covers/al1_high.jpg'']"
    by (simp add: removeSong_transaction_def Let_def shared_db_def empty_db_def
      getCountBySong_def count_bridge_def queryFirstCell_null_def queryFirstCell_def push_path_def
      truthy_def delete_song_rows_def remove_album_step_def remove_artist_step_def
      albums_by_id_def like_refl)
  show ?thesis
    using removeSong_swallows_missing_files_only [of missing "''s1''" shared_db]
    by (simp add: p missing_def)
qed

subsection \<open>Storing a song: what the entity steps leave alone\<close>

lemma storeArtists_step_frame:
  "allsongs (snd (storeArtists_step a acc)) = allsongs (snd acc) \<and>
   albums (snd (storeArtists_step a acc)) = albums (snd acc) \<and>
   genre (snd (storeArtists_step a acc)) = genre (snd acc) \<and>
   artists_bridge (snd (storeArtists_step a acc)) = artists_bridge (snd acc) \<and>
   album_bridge (snd (storeArtists_step a acc)) = album_bridge (snd acc) \<and>
   genre_bridge (snd (storeArtists_step a acc)) = genre_bridge (snd acc) \<and>
   playlist_bridge (snd (storeArtists_step a acc)) = playlist_bridge (snd acc)"
  by (cases acc) (simp add: storeArtists_step_def Let_def v4_def)

lemma storeArtists_frame:
  "allsongs (snd (storeArtists names d)) = allsongs d \<and>
   albums (snd (storeArtists names d)) = albums d \<and>
   genre (snd (storeArtists names d)) = genre d \<and>
   artists_bridge (snd (storeArtists names d)) = artists_bridge d \<and>
   album_bridge (snd (storeArtists names d)) = album_bridge d \<and>
   genre_bridge (snd (storeArtists names d)) = genre_bridge d \<and>
   playlist_bridge (snd (storeArtists names d)) = playlist_bridge d"
proof -
  have "allsongs (snd (fold storeArtists_step names acc)) = allsongs (snd acc) \<and>
   albums (snd (fold storeArtists_step names acc)) = albums (snd acc) \<and>
   genre (snd (fold storeArtists_step names acc)) = genre (snd acc) \<and>
   artists_bridge (snd (fold storeArtists_step names acc)) = artists_bridge (snd acc) \<and>
   album_bridge (snd (fold storeArtists_step names acc)) = album_bridge (snd acc) \<and>
   genre_bridge (snd (fold storeArtists_step names acc)) = genre_bridge (snd acc) \<and>
   playlist_bridge (snd (fold storeArtists_step names acc)) = playlist_bridge (snd acc)" for acc
    by (induction names arbitrary: acc) (simp_all add: storeArtists_step_frame)
  then show ?thesis
    by (simp add: storeArtists_def)
qed

lemma storeGenre_step_frame:
  "allsongs (snd (storeGenre_step a acc)) = allsongs (snd acc) \<and>
   albums (snd (storeGenre_step a acc)) = albums (snd acc) \<and>
   artists (snd (storeGenre_step a acc)) = artists (snd acc) \<and>
   artists_bridge (snd (storeGenre_step a acc)) = artists_bridge (snd acc) \<and>
   album_bridge (snd (storeGenre_step a acc)) = album_bridge (snd acc) \<and>
   genre_bridge (snd (storeGenre_step a acc)) = genre_bridge (snd acc) \<and>
   playlist_bridge (snd (storeGenre_step a acc)) = playlist_bridge (snd acc)"
  by (cases acc) (simp add: storeGenre_step_def Let_def v4_def)

lemma storeGenre_frame:
  "allsongs (snd (storeGenre g d)) = allsongs d \<and>
   albums (snd (storeGenre g d)) = albums d \<and>
   artists (snd (storeGenre g d)) = artists d \<and>
   artists_bridge (snd (storeGenre g d)) = artists_bridge d \<and>
   album_bridge (snd (storeGenre g d)) = album_bridge d \<and>
   genre_bridge (snd (storeGenre g d)) = genre_bridge d \<and>
   playlist_bridge (snd (storeGenre g d)) = playlist_bridge d"
proof -
  have "allsongs (snd (fold storeGenre_step names acc)) = allsongs (snd acc) \<and>
   albums (snd (fold storeGenre_step names acc)) = albums (snd acc) \<and>
   artists (snd (fold storeGenre_step names acc)) = artists (snd acc) \<and>
   artists_bridge (snd (fold storeGenre_step names acc)) = artists_bridge (snd acc) \<and>
   album_bridge (snd (fold storeGenre_step names acc)) = album_bridge (snd acc) \<and>
   genre_bridge (snd (fold storeGenre_step names acc)) = genre_bridge (snd acc) \<and>
   playlist_bridge (snd (fold storeGenre_step names acc)) = playlist_bridge (snd acc)" for acc names
    by (induction names arbitrary: acc) (simp_all add: storeGenre_step_frame)
  then show ?thesis
    by (cases g) (simp_all add: storeGenre_def)
qed

lemma storeAlbum_frame:
  "allsongs (snd (storeAlbum a d)) = allsongs d \<and>
   artists (snd (storeAlbum a d)) = artists d \<and>
   genre (snd (storeAlbum a d)) = genre d \<and>
   artists_bridge (snd (storeAlbum a d)) = artists_bridge d \<and>
   album_bridge (snd (storeAlbum a d)) = album_bridge d \<and>
   genre_bridge (snd (storeAlbum a d)) = genre_bridge d \<and>
   playlist_bridge (snd (storeAlbum a d)) = playlist_bridge d"
  by (simp add: storeAlbum_def Let_def v4_def insert_or_replace_album_def)

text \<open>\<open>store\<close>, with names for the results of its three entity steps.\<close>

lemma store_unfold:
  obtains artistID albumID genreID d1 d2 d3 where
    "(case doc_artists s of None \<Rightarrow> ([], d) | Some names \<Rightarrow> storeArtists names d) = (artistID, d1)"
    "(case doc_album s of None \<Rightarrow> (Some [], d1) | Some album \<Rightarrow> storeAlbum album d1) = (albumID, d2)"
    "storeGenre (doc_genre s) d2 = (genreID, d3)"
    "store m s d =
       (if filter (\<lambda>r. song_id r = song_id (m s)) (allsongs d3) = [] then
          storeAlbumBridge albumID (song_id (m s))
            (storeGenreBridge genreID (song_id (m s))
              (storeArtistBridge artistID (song_id (m s))
                (d3\<lparr>allsongs := allsongs d3 @ [m s]\<rparr>)))
        else d3)"
proof -
  obtain artistID d1 where a: "(case doc_artists s of None \<Rightarrow> ([], d) | Some names \<Rightarrow> storeArtists names d) = (artistID, d1)"
    by (cases "(case doc_artists s of None \<Rightarrow> ([], d) | Some names \<Rightarrow> storeArtists names d)")
  obtain albumID d2 where b: "(case doc_album s of None \<Rightarrow> (Some [], d1) | Some album \<Rightarrow> storeAlbum album d1) = (albumID, d2)"
    by (cases "(case doc_album s of None \<Rightarrow> (Some [], d1) | Some album \<Rightarrow> storeAlbum album d1)")
  obtain genreID d3 where c: "storeGenre (doc_genre s) d2 = (genreID, d3)"
    by (cases "storeGenre (doc_genre s) d2")
  have "store m s d =
       (if filter (\<lambda>r. song_id r = song_id (m s)) (allsongs d3) = [] then
          storeAlbumBridge albumID (song_id (m s))
            (storeGenreBridge genreID (song_id (m s))
              (storeArtistBridge artistID (song_id (m s))
                (d3\<lparr>allsongs := allsongs d3 @ [m s]\<rparr>)))
        else d3)"
    by (simp add: store_def a b c Let_def)
  then show ?thesis
    using that a b c by blast
qed

lemma store_cases:
  obtains artistID albumID genreID d3 where
    "allsongs d3 = allsongs d" "artists_bridge d3 = artists_bridge d"
    "album_bridge d3 = album_bridge d" "genre_bridge d3 = genre_bridge d"
    "playlist_bridge d3 = playlist_bridge d"
    "store m s d =
       (if filter (\<lambda>r. song_id r = song_id (m s)) (allsongs d) = [] then
          storeAlbumBridge albumID (song_id (m s))
            (storeGenreBridge genreID (song_id (m s))
              (storeArtistBridge artistID (song_id (m s))
                (d3\<lparr>allsongs := allsongs d3 @ [m s]\<rparr>)))
        else d3)"
proof -
  obtain artistID albumID genreID d1 d2 d3 where
    a: "(case doc_artists s of None \<Rightarrow> ([], d) | Some names \<Rightarrow> storeArtists names d) = (artistID, d1)"
    and b: "(case doc_album s of None \<Rightarrow> (Some [], d1) | Some album \<Rightarrow> storeAlbum album d1) = (albumID, d2)"
    and c: "storeGenre (doc_genre s) d2 = (genreID, d3)"
    and st: "store m s d =
       (if filter (\<lambda>r. song_id r = song_id (m s)) (allsongs d3) = [] then
          storeAlbumBridge albumID (song_id (m s))
            (storeGenreBridge genreID (song_id (m s))
              (storeArtistBridge artistID (song_id (m s))
                (d3\<lparr>allsongs := allsongs d3 @ [m s]\<rparr>)))
        else d3)"
    by (rule store_unfold)
  have f1: "allsongs d1 = allsongs d \<and> artists_bridge d1 = artists_bridge d \<and>
        album_bridge d1 = album_bridge d \<and> genre_bridge d1 = genre_bridge d \<and>
        playlist_bridge d1 = playlist_bridge d"
  proof (cases "doc_artists s")
    case None
    then show ?thesis using a by simp
  next
    case (Some names)
    then have "d1 = snd (storeArtists names d)" using a by simp
    then show ?thesis by (simp add: storeArtists_frame)
  qed
  have f2: "allsongs d2 = allsongs d1 \<and> artists_bridge d2 = artists_bridge d1 \<and>
        album_bridge d2 = album_bridge d1 \<and> genre_bridge d2 = genre_bridge d1 \<and>
        playlist_bridge d2 = playlist_bridge d1"
  proof (cases "doc_album s")
    case None
    then show ?thesis using b by simp
  next
    case (Some album)
    then have "d2 = snd (storeAlbum album d1)" using b by simp
    then show ?thesis by (simp add: storeAlbum_frame)
  qed
  have "d3 = snd (storeGenre (doc_genre s) d2)" using c by simp
  then have f3: "allsongs d3 = allsongs d2 \<and> artists_bridge d3 = artists_bridge d2 \<and>
        album_bridge d3 = album_bridge d2 \<and> genre_bridge d3 = genre_bridge d2 \<and>
        playlist_bridge d3 = playlist_bridge d2"
    by (simp add: storeGenre_frame)
  show ?thesis
    using that [of d3 albumID genreID artistID] f1 f2 f3 st by simp
qed

lemma store_allsongs:
  "allsongs (store m s d) =
     (if filter (\<lambda>r. song_id r = song_id (m s)) (allsongs d) = [] then allsongs d @ [m s]
      else allsongs d)"
proof -
  obtain artistID albumID genreID d3 where
    "allsongs d3 = allsongs d"
    "store m s d =
       (if filter (\<lambda>r. song_id r = song_id (m s)) (allsongs d) = [] then
          storeAlbumBridge albumID (song_id (m s))
            (storeGenreBridge genreID (song_id (m s))
              (storeArtistBridge artistID (song_id (m s))
                (d3\<lparr>allsongs := allsongs d3 @ [m s]\<rparr>)))
        else d3)"
    by (rule store_cases)
  then show ?thesis
    by (simp add: storeAlbumBridge_def storeGenreBridge_def storeArtistBridge_def)
qed

lemma store_existing:
  assumes "filter (\<lambda>r. song_id r = song_id (m s)) (allsongs d) \<noteq> []"
  shows "allsongs (store m s d) = allsongs d \<and>
         artists_bridge (store m s d) = artists_bridge d \<and>
         album_bridge (store m s d) = album_bridge d \<and>
         genre_bridge (store m s d) = genre_bridge d \<and>
         playlist_bridge (store m s d) = playlist_bridge d"
proof -
  obtain artistID albumID genreID d3 where
    "allsongs d3 = allsongs d" "artists_bridge d3 = artists_bridge d"
    "album_bridge d3 = album_bridge d" "genre_bridge d3 = genre_bridge d"
    "playlist_bridge d3 = playlist_bridge d"
    "store m s d =
       (if filter (\<lambda>r. song_id r = song_id (m s)) (allsongs d) = [] then
          storeAlbumBridge albumID (song_id (m s))
            (storeGenreBridge genreID (song_id (m s))
              (storeArtistBridge artistID (song_id (m s))
                (d3\<lparr>allsongs := allsongs d3 @ [m s]\<rparr>)))
        else d3)"
    by (rule store_cases)
  then show ?thesis
    using assms by simp
qed

lemma bridges_keep_albums:
  "albums (storeAlbumBridge x i (storeGenreBridge y i (storeArtistBridge z i (d\<lparr>allsongs := r\<rparr>)))) = albums d"
  by (simp add: storeAlbumBridge_def storeGenreBridge_def storeArtistBridge_def)

lemma store_albums:
  "\<exists>d1. albums d1 = albums d \<and>
     albums (store m s d) = (case doc_album s of None \<Rightarrow> albums d | Some a \<Rightarrow> albums (snd (storeAlbum a d1)))"
proof -
  obtain artistID albumID genreID d1 d2 d3 where
    a: "(case doc_artists s of None \<Rightarrow> ([], d) | Some names \<Rightarrow> storeArtists names d) = (artistID, d1)"
    and b: "(case doc_album s of None \<Rightarrow> (Some [], d1) | Some album \<Rightarrow> storeAlbum album d1) = (albumID, d2)"
    and c: "storeGenre (doc_genre s) d2 = (genreID, d3)"
    and st: "store m s d =
       (if filter (\<lambda>r. song_id r = song_id (m s)) (allsongs d3) = [] then
          storeAlbumBridge albumID (song_id (m s))
            (storeGenreBridge genreID (song_id (m s))
              (storeArtistBridge artistID (song_id (m s))
                (d3\<lparr>allsongs := allsongs d3 @ [m s]\<rparr>)))
        else d3)"
    by (rule store_unfold)
  have f1: "albums d1 = albums d"
  proof (cases "doc_artists s")
    case None
    then show ?thesis using a by simp
  next
    case (Some names)
    then have "d1 = snd (storeArtists names d)" using a by simp
    then show ?thesis by (simp add: storeArtists_frame)
  qed
  have "d3 = snd (storeGenre (doc_genre s) d2)" using c by simp
  then have f3: "albums d3 = albums d2"
    by (simp add: storeGenre_frame)
  have e: "albums (store m s d) = albums d3"
    unfolding st by (simp only: if_distrib [of albums] bridges_keep_albums if_cancel)
  have "albums d2 = (case doc_album s of None \<Rightarrow> albums d | Some a \<Rightarrow> albums (snd (storeAlbum a d1)))"
  proof (cases "doc_album s")
    case None
    then have "d2 = d1" using b by simp
    then show ?thesis using None f1 by simp
  next
    case (Some album)
    then have "d2 = snd (storeAlbum album d1)" using b by simp
    then show ?thesis using Some by simp
  qed
  then have "albums (store m s d) = (case doc_album s of None \<Rightarrow> albums d | Some a \<Rightarrow> albums (snd (storeAlbum a d1)))"
    using e f3 by simp
  then show ?thesis
    using f1 by blast
qed

lemma find_album_cong: "albums d' = albums d \<Longrightarrow> find_album n d' = find_album n d"
  by (simp add: find_album_def)

lemma storeAlbum_found:
  assumes "album_name a = Some n" "n \<noteq> []" "find_album (trim n) d = Some i" "i \<noteq> []"
  shows "albums (snd (storeAlbum a d)) =
           filter (\<lambda>r. album_id r \<noteq> i) (albums d) @
           [\<lparr>album_id = i, album_name = Some n,
             album_coverPath_high = album_coverPath_high a,
             album_coverPath_low = album_coverPath_low a,
             album_song_count = album_song_count_default d, album_artist = album_artist a\<rparr>]"
  using assms by (simp add: storeAlbum_def truthy_def Let_def insert_or_replace_album_def)

subsection \<open>Evaluating \<open>store\<close> on the examples\<close>

lemma uuid_stream_values:
  "uuid_stream 0 = ''uuid-0''" "uuid_stream (Suc 0) = ''uuid-1''"
  "uuid_stream (Suc (Suc 0)) = ''uuid-2''" "uuid_stream (Suc (Suc (Suc 0))) = ''uuid-3''"
  by (simp_all add: uuid_stream_def string_of_nat.simps digit_char_def)

lemma trim_values:
  "trim ''Daft Punk'' = ''Daft Punk''" "trim '' daft punk '' = ''daft punk''"
  "trim ''Justice'' = ''Justice''"
  "trim '' Discovery '' = ''Discovery''" "trim ''discovery'' = ''discovery''"
  by (simp_all add: trim_def is_ws_def white_space_def)

lemmas store_eval = store_def storeArtists_def storeArtists_step_def find_artist_def storeAlbum_def
  find_album_def storeGenre_def storeGenre_step_def find_genre_def insert_or_replace_album_def v4_def
  storeArtistBridge_def storeGenreBridge_def storeAlbumBridge_def queryFirstCell_def truthy_def
  nocase_eq_col_def nocase_eq_def nocase_def trim_values Let_def
  empty_db_def uuid_stream_values marshal_ex_def

subsection \<open>Storing a song twice\<close>

text \<open>
  C3, as the claim states it, fails in both of its parts, and by design. \<open>store\<close> makes
  one bridge row for every artist a song lists, so a song that lists one artist twice has
  two equal bridge rows, also after it is stored twice. And the entity steps of \<open>store\<close>
  run before the test for the song: a second song with the same identifier and another
  artist adds that artist's row, so the second call is no no-op.
\<close>

theorem store_twice_by_design:
  "song_id (marshal_ex other_artist_song) = song_id (marshal_ex twice_artist_song)
   \<and> artists_bridge (store marshal_ex twice_artist_song (store marshal_ex twice_artist_song empty_db)) =
       [\<lparr>song = ''s1'', entity = ''uuid-0''\<rparr>, \<lparr>song = ''s1'', entity = ''uuid-0''\<rparr>]
   \<and> artists (store marshal_ex twice_artist_song empty_db) =
       [\<lparr>artist_id = ''uuid-0'', artist_name = Some ''Daft Punk'',
         artist_coverPath = None, artist_song_count = None\<rparr>]
   \<and> artists (store marshal_ex other_artist_song (store marshal_ex twice_artist_song empty_db)) =
       [\<lparr>artist_id = ''uuid-0'', artist_name = Some ''Daft Punk'',
         artist_coverPath = None, artist_song_count = None\<rparr>,
        \<lparr>artist_id = ''uuid-1'', artist_name = Some ''Justice'',
         artist_coverPath = None, artist_song_count = None\<rparr>]"
  by (simp add: store_eval twice_artist_song_def other_artist_song_def)

text \<open>
  C3, amended. The second of two calls of \<open>store\<close> with songs of one identifier adds no
  song row and no bridge row: table \<open>allsongs\<close> and the four bridge tables are as the
  first call left them, and the identifier has as many song rows as before the two calls,
  but one where it had none. (The bridge rows of the first call and the entity tables are
  not part of the statement.)
\<close>

theorem store_twice_keeps_song_and_bridges:
  "song_id (m s') = song_id (m s) \<longrightarrow>
      allsongs (store m s' (store m s d)) = allsongs (store m s d) \<and>
      artists_bridge (store m s' (store m s d)) = artists_bridge (store m s d) \<and>
      album_bridge (store m s' (store m s d)) = album_bridge (store m s d) \<and>
      genre_bridge (store m s' (store m s d)) = genre_bridge (store m s d) \<and>
      playlist_bridge (store m s' (store m s d)) = playlist_bridge (store m s d) \<and>
      length (filter (\<lambda>r. song_id r = song_id (m s)) (allsongs (store m s' (store m s d)))) =
        max 1 (length (filter (\<lambda>r. song_id r = song_id (m s)) (allsongs d)))"
proof
  assume same: "song_id (m s') = song_id (m s)"
  have present: "filter (\<lambda>r. song_id r = song_id (m s)) (allsongs (store m s d)) \<noteq> []"
    by (simp add: store_allsongs)
  have frame: "allsongs (store m s' (store m s d)) = allsongs (store m s d) \<and>
      artists_bridge (store m s' (store m s d)) = artists_bridge (store m s d) \<and>
      album_bridge (store m s' (store m s d)) = album_bridge (store m s d) \<and>
      genre_bridge (store m s' (store m s d)) = genre_bridge (store m s d) \<and>
      playlist_bridge (store m s' (store m s d)) = playlist_bridge (store m s d)"
    using store_existing [of m s' "store m s d"] present same by simp
  have "length (filter (\<lambda>r. song_id r = song_id (m s)) (allsongs (store m s d))) =
        max 1 (length (filter (\<lambda>r. song_id r = song_id (m s)) (allsongs d)))"
  proof (cases "filter (\<lambda>r. song_id r = song_id (m s)) (allsongs d) = []")
    case True
    then show ?thesis by (simp add: store_allsongs)
  next
    case False
    then have "1 \<le> length (filter (\<lambda>r. song_id r = song_id (m s)) (allsongs d))"
      by (cases "filter (\<lambda>r. song_id r = song_id (m s)) (allsongs d)") simp_all
    then show ?thesis using False by (simp add: store_allsongs max_def)
  qed
  then show "allsongs (store m s' (store m s d)) = allsongs (store m s d) \<and>
      artists_bridge (store m s' (store m s d)) = artists_bridge (store m s d) \<and>
      album_bridge (store m s' (store m s d)) = album_bridge (store m s d) \<and>
      genre_bridge (store m s' (store m s d)) = genre_bridge (store m s d) \<and>
      playlist_bridge (store m s' (store m s d)) = playlist_bridge (store m s d) \<and>
      length (filter (\<lambda>r. song_id r = song_id (m s)) (allsongs (store m s' (store m s d)))) =
        max 1 (length (filter (\<lambda>r. song_id r = song_id (m s)) (allsongs d)))"
    using frame by simp
qed

theorem store_twice_keeps_song_and_bridges_witness:
  "song_id (marshal_ex other_artist_song) = song_id (marshal_ex twice_artist_song)
   \<and> allsongs (store marshal_ex other_artist_song (store marshal_ex twice_artist_song empty_db)) =
       [\<lparr>song_id = ''s1'', song_coverPath_low = None, song_coverPath_high = None\<rparr>]
   \<and> artists_bridge (store marshal_ex other_artist_song (store marshal_ex twice_artist_song empty_db)) =
       [\<lparr>song = ''s1'', entity = ''uuid-0''\<rparr>, \<lparr>song = ''s1'', entity = ''uuid-0''\<rparr>]
   \<and> length (filter (\<lambda>r. song_id r = ''s1'')
         (allsongs (store marshal_ex other_artist_song (store marshal_ex twice_artist_song empty_db)))) = 1"
proof -
  have same: "song_id (marshal_ex other_artist_song) = song_id (marshal_ex twice_artist_song)"
    by (simp add: marshal_ex_def other_artist_song_def twice_artist_song_def)
  have one: "allsongs (store marshal_ex twice_artist_song empty_db) =
       [\<lparr>song_id = ''s1'', song_coverPath_low = None, song_coverPath_high = None\<rparr>]
   \<and> artists_bridge (store marshal_ex twice_artist_song empty_db) =
       [\<lparr>song = ''s1'', entity = ''uuid-0''\<rparr>, \<lparr>song = ''s1'', entity = ''uuid-0''\<rparr>]"
    by (simp add: store_eval twice_artist_song_def)
  have id: "song_id (marshal_ex twice_artist_song) = ''s1''"
    by (simp add: marshal_ex_def twice_artist_song_def)
  have e: "allsongs empty_db = []"
    by (simp add: empty_db_def)
  show ?thesis
    using store_twice_keeps_song_and_bridges
      [of marshal_ex other_artist_song twice_artist_song empty_db] same one
    by (simp add: id e)
qed

subsection \<open>Storing a song of an album that is there\<close>

text \<open>
  C4, as the claim states it, fails: a song of the album \<open>discovery\<close> is stored, the
  album \<open>Discovery\<close> is there, and its low cover and its album artist are overwritten
  (here with NULL).
\<close>

theorem store_overwrites_album_details:
  "find_album (trim ''discovery'') covered_album_db = Some ''a1''
   \<and> map album_coverPath_low (albums covered_album_db) = [Some ''/covers/old_low.jpg'']
   \<and> map album_artist (albums covered_album_db) = [Some ''Daft Punk'']
   \<and> map album_id (albums (store marshal_ex recover_song covered_album_db)) = [''a1'']
   \<and> map album_coverPath_low (albums (store marshal_ex recover_song covered_album_db)) = [None]
   \<and> map album_artist (albums (store marshal_ex recover_song covered_album_db)) = [None]"
  by (simp add: store_eval covered_album_db_def recover_song_def)

text \<open>
  C4, amended. When the trimmed name of a song's album matches an album row (without
  regard to case), \<open>store\<close> keeps the identifier of that row and writes the row anew:
  its name, its two cover paths and its album artist are those of the song's album.
\<close>

theorem store_replaces_album_details:
  assumes "doc_album s = Some a" and "album_name a = Some n" and "n \<noteq> []"
    and "find_album (trim n) d = Some i" and "i \<noteq> []"
  shows "map (\<lambda>r. (album_id r, album_name r, album_coverPath_high r, album_coverPath_low r,
                   album_artist r))
           (filter (\<lambda>r. album_id r = i) (albums (store m s d))) =
         [(i, Some n, album_coverPath_high a, album_coverPath_low a, album_artist a)]"
proof -
  obtain d1 where d1: "albums d1 = albums d" "albums (store m s d) = albums (snd (storeAlbum a d1))"
  proof -
    obtain d1 where "albums d1 = albums d"
      "albums (store m s d) = (case doc_album s of None \<Rightarrow> albums d | Some a \<Rightarrow> albums (snd (storeAlbum a d1)))"
      using store_albums [of d m s] by blast
    then show ?thesis
      using that [of d1] by (simp add: assms(1))
  qed
  have "find_album (trim n) d1 = Some i"
    using assms(4) find_album_cong [OF d1(1), of "trim n"] by simp
  then have "albums (store m s d) =
           filter (\<lambda>r. album_id r \<noteq> i) (albums d) @
           [\<lparr>album_id = i, album_name = Some n,
             album_coverPath_high = album_coverPath_high a,
             album_coverPath_low = album_coverPath_low a,
             album_song_count = album_song_count_default d1, album_artist = album_artist a\<rparr>]"
    using storeAlbum_found [OF assms(2,3) _ assms(5), of d1] d1 by simp
  then show ?thesis
    by simp
qed

theorem store_replaces_album_details_witness:
  "doc_album recover_song =
     Some \<lparr>album_id = [], album_name = Some ''discovery'',
           album_coverPath_high = Some ''/covers/new_high.jpg'', album_coverPath_low = None,
           album_song_count = None, album_artist = None\<rparr>
   \<and> find_album (trim ''discovery'') covered_album_db = Some ''a1''
   \<and> map (\<lambda>r. (album_id r, album_name r, album_coverPath_high r, album_coverPath_low r,
                album_artist r))
         (filter (\<lambda>r. album_id r = ''a1'') (albums (store marshal_ex recover_song covered_album_db))) =
       [(''a1'', Some ''discovery'', Some ''/covers/new_high.jpg'', None, None)]"
proof -
  let ?a = "\<lparr>album_id = [], album_name = Some ''discovery'',
           album_coverPath_high = Some ''/covers/new_high.jpg'', album_coverPath_low = None,
           album_song_count = None, album_artist = None\<rparr>"
  have h1: "doc_album recover_song = Some ?a"
    by (simp add: recover_song_def)
  have h2: "album_name ?a = Some ''discovery''" by simp
  have h3: "''discovery'' \<noteq> []" by simp
  have h4: "find_album (trim ''discovery'') covered_album_db = Some ''a1''"
    by (simp add: find_album_def covered_album_db_def empty_db_def queryFirstCell_def
        nocase_eq_col_def nocase_eq_def nocase_def trim_values)
  have h5: "''a1'' \<noteq> []" by simp
  show ?thesis
    using store_replaces_album_details [OF h1 h2 h3 h4 h5, of marshal_ex] h1 h4 by simp
qed

subsection \<open>One entity for one name\<close>

text \<open>
  The artists: two names that are equal after \<open>trim\<close> and case folding resolve to one
  identifier, and the second call adds no row. The identifiers in the table and the next
  one of \<open>v4()\<close> are not empty.
\<close>

lemma nocase_eq_col_cong: "nocase_eq a b \<Longrightarrow> nocase_eq_col c a = nocase_eq_col c b"
  by (cases c) (auto simp: nocase_eq_col_def nocase_eq_def)

lemma find_artist_nocase: "nocase_eq a b \<Longrightarrow> find_artist a d = find_artist b d"
  using nocase_eq_col_cong [of a b] by (simp add: find_artist_def)

lemma queryFirstCell_None: "queryFirstCell xs = None \<longleftrightarrow> xs = []"
  by (cases xs) (simp_all add: queryFirstCell_def)

lemma queryFirstCell_Some: "queryFirstCell xs = Some x \<Longrightarrow> x \<in> set xs"
  by (cases xs) (simp_all add: queryFirstCell_def)

lemma nocase_eq_col_refl: "nocase_eq_col (Some x) x"
  by (simp add: nocase_eq_col_def nocase_eq_def)

lemma storeArtists_one:
  "storeArtists [a] d = storeArtists_step a ([], d)"
  by (simp add: storeArtists_def)

lemma storeArtists_dedup:
  assumes eq: "nocase_eq (trim n1) (trim n2)"
    and ids: "\<forall>r \<in> set (artists d). artist_id r \<noteq> []"
    and new: "uuids d (uuid_next d) \<noteq> []"
  shows "fst (storeArtists [n2] (snd (storeArtists [n1] d))) = fst (storeArtists [n1] d) \<and>
         artists (snd (storeArtists [n2] (snd (storeArtists [n1] d)))) =
           artists (snd (storeArtists [n1] d)) \<and>
         length (artists (snd (storeArtists [n1] d))) \<le> Suc (length (artists d))"
proof (cases "find_artist (trim n1) d")
  case None
  let ?row = "\<lparr>artist_id = uuids d (uuid_next d), artist_name = Some (trim n1),
               artist_coverPath = None, artist_song_count = None\<rparr>"
  let ?d' = "d\<lparr>uuid_next := Suc (uuid_next d), artists := artists d @ [?row]\<rparr>"
  have first: "storeArtists [n1] d = ([uuids d (uuid_next d)], ?d')"
    using None by (simp add: storeArtists_one storeArtists_step_def truthy_def v4_def)
  have none: "filter (\<lambda>r. nocase_eq_col (artist_name r) (trim n1)) (artists d) = []"
    using None by (simp add: find_artist_def queryFirstCell_None)
  have "find_artist (trim n1) ?d' = Some (uuids d (uuid_next d))"
    by (simp add: find_artist_def none queryFirstCell_def nocase_eq_col_refl)
  then have found: "find_artist (trim n2) ?d' = Some (uuids d (uuid_next d))"
    using find_artist_nocase [OF eq, of ?d'] by simp
  have second: "storeArtists [n2] ?d' = ([uuids d (uuid_next d)], ?d')"
    using new by (simp add: storeArtists_one storeArtists_step_def found truthy_def)
  show ?thesis
    by (simp add: first second)
next
  case (Some i)
  have "i \<in> set (map artist_id (filter (\<lambda>r. nocase_eq_col (artist_name r) (trim n1)) (artists d)))"
    using Some unfolding find_artist_def by (rule queryFirstCell_Some)
  then have i: "i \<noteq> []"
    using ids by auto
  have first: "storeArtists [n1] d = ([i], d)"
    using Some i by (simp add: storeArtists_one storeArtists_step_def truthy_def)
  have "find_artist (trim n2) d = Some i"
    using find_artist_nocase [OF eq, of d] Some by simp
  then have second: "storeArtists [n2] d = ([i], d)"
    using i by (simp add: storeArtists_one storeArtists_step_def truthy_def)
  show ?thesis
    by (simp add: first second)
qed

text \<open>
  C2. Names that are equal after \<open>trim\<close> and case folding are to resolve to one
  identifier and to one row at most, as artist names, as album names and as genre names.
  The code does so for the artists (\<open>storeArtists_dedup\<close>) and not for the other two:
  \<open>storeAlbum\<close> looks the trimmed name up and inserts the name as it came, so an album
  whose name has a space on either side is never found again, and \<open>storeGenre\<close> does
  not trim at all. The album \<open>Discovery\<close> with spaces, stored twice, has two
  identifiers and two rows; so have the genres \<open>Rock\<close> without and with spaces.
\<close>

theorem padded_names_not_deduplicated:
  "fst (storeAlbum padded_album empty_db) = Some ''uuid-0''
   \<and> fst (storeAlbum padded_album (snd (storeAlbum padded_album empty_db))) = Some ''uuid-1''
   \<and> map album_id (albums (snd (storeAlbum padded_album
         (snd (storeAlbum padded_album empty_db))))) = [''uuid-0'', ''uuid-1'']
   \<and> fst (storeGenre (Some [''Rock'']) empty_db) = [''uuid-0'']
   \<and> fst (storeGenre (Some ['' Rock '']) (snd (storeGenre (Some [''Rock'']) empty_db))) = [''uuid-1'']
   \<and> map genre_name (genre (snd (storeGenre (Some ['' Rock ''])
         (snd (storeGenre (Some [''Rock'']) empty_db))))) = [''Rock'', '' Rock '']"
  by (simp add: store_eval padded_song_def padded_album_def)

end
